theory Spec2Isabelle
  imports Main "HOL-Library.Sublist"
begin

section \<open>Data model\<close>

text \<open>
  Modelled from the spec: the type declarations of \<^verbatim>\<open>types/note\<close> and
  \<^verbatim>\<open>services/notes\<close> (\<^verbatim>\<open>Note\<close>, \<^verbatim>\<open>NoteMetadata\<close>, \<^verbatim>\<open>SearchResult\<close>,
  \<^verbatim>\<open>Settings\<close>) are not among the sources. The records have the fields of the spec's
  data model, which are the fields the provider and the editor read and build. Field
  names carry a prefix because several records have an \<^verbatim>\<open>id\<close>, a \<^verbatim>\<open>title\<close> and a
  \<^verbatim>\<open>modified\<close> field. Strings are \<^typ>\<open>string\<close>; timestamps are natural numbers; a
  score is a number that the provider only passes on, or sets to 0.
\<close>

record Note =
  note_id :: string
  note_title :: string
  note_content :: string
  note_path :: string
  note_modified :: nat

record NoteMetadata =
  meta_id :: string
  meta_title :: string
  meta_preview :: string
  meta_modified :: nat

record SearchResult =
  res_id :: string
  res_title :: string
  res_preview :: string
  res_modified :: nat
  res_score :: int

text \<open>
  Modelled from the spec: of the settings record only \<^verbatim>\<open>pinnedNoteIds\<close> (optional) is
  read by the provider; the remaining fields are spread unchanged
  (\<^verbatim>\<open>...currentSettings\<close>) and are kept as one opaque field.
\<close>

record Settings =
  pinnedNoteIds :: "string list option"
  otherSettings :: string

text \<open>
  A rejected promise carries any value; the handlers only ask whether it is an
  \<^verbatim>\<open>Error\<close> and, if so, read its message.
\<close>

datatype thrown = Error string | NotAnError

fun errorMessage :: "thrown \<Rightarrow> string \<Rightarrow> string" where
  "errorMessage (Error msg) fallback = msg"
| "errorMessage NotAnError fallback = fallback"

text \<open>
  JavaScript truthiness of an optional id: \<^verbatim>\<open>null\<close>, \<^verbatim>\<open>undefined\<close> and the
  empty string are falsy.
\<close>

fun truthy :: "string option \<Rightarrow> bool" where
  "truthy None = False"
| "truthy (Some s) = (s \<noteq> [])"

section \<open>Notes provider (NotesContext)\<close>

text \<open>The calls of \<^verbatim>\<open>notesService\<close> the provider issues, logged in order.\<close>

datatype service_call =
    ReadNote string
  | SaveNote string string
  | ListNotes
  | GetSettings
  | UpdateSettings Settings
  | SearchNotes string

text \<open>
  The closures handed to \<^verbatim>\<open>setTimeout\<close>: the debounced list refresh (300 ms) and the
  release of the recently-saved marks (1000 ms) of a save.
\<close>

datatype timer_action =
    RefreshTimer
  | ReleaseTimer string "string option"

text \<open>
  The provider's state: the \<^verbatim>\<open>useState\<close> cells, the refs, the pending window timers
  (handle and closure) and the log of service calls. The cell \<^verbatim>\<open>notes\<close> is the field
  \<open>noteList\<close>. \<^verbatim>\<open>selectedNoteIdRef\<close> and
  \<^verbatim>\<open>notesRef\<close> are assigned from the state on every render and are read as the state.
\<close>

record notes_state =
  noteList :: "NoteMetadata list"
  selectedNoteId :: "string option"
  currentNote :: "Note option"
  notesFolder :: "string option"
  isLoading :: bool
  error :: "string option"
  searchQuery :: string
  searchResults :: "SearchResult list"
  isSearching :: bool
  hasExternalChanges :: bool
  reloadVersion :: nat
  recentlySavedRef :: "string set"
  refreshTimeoutRef :: "nat option"
  searchRequestIdRef :: nat
  timers :: "(nat \<times> timer_action) list"
  nextTimer :: nat
  invoked :: "service_call list"

definition setTimeout :: "timer_action \<Rightarrow> notes_state \<Rightarrow> nat \<times> notes_state" where
  "setTimeout action st =
     (nextTimer st,
      st\<lparr>timers := timers st @ [(nextTimer st, action)], nextTimer := Suc (nextTimer st)\<rparr>)"

definition clearTimeout :: "nat \<Rightarrow> notes_state \<Rightarrow> notes_state" where
  "clearTimeout h st = st\<lparr>timers := filter (\<lambda>t. fst t \<noteq> h) (timers st)\<rparr>"

definition invoke :: "service_call \<Rightarrow> notes_state \<Rightarrow> notes_state" where
  "invoke c st = st\<lparr>invoked := invoked st @ [c]\<rparr>"

subsection \<open>refreshNotes and scheduleRefresh\<close>

text \<open>\<^verbatim>\<open>refreshNotes\<close> up to its \<^verbatim>\<open>await\<close>, and its continuation.\<close>

definition refreshNotes :: "notes_state \<Rightarrow> notes_state" where
  "refreshNotes st = (if \<not> truthy (notesFolder st) then st else invoke ListNotes st)"

fun refreshNotes_resume :: "thrown + NoteMetadata list \<Rightarrow> notes_state \<Rightarrow> notes_state" where
  "refreshNotes_resume (Inr notesList) st = st\<lparr>noteList := notesList\<rparr>"
| "refreshNotes_resume (Inl err) st =
     st\<lparr>error := Some (errorMessage err ''Failed to load notes'')\<rparr>"

definition scheduleRefresh :: "notes_state \<Rightarrow> notes_state" where
  "scheduleRefresh st =
     (let st1 = (case refreshTimeoutRef st of None \<Rightarrow> st | Some h \<Rightarrow> clearTimeout h st);
          (h', st2) = setTimeout RefreshTimer st1
      in st2\<lparr>refreshTimeoutRef := Some h'\<rparr>)"

text \<open>A pending timer fires: it leaves the timer table and its closure runs.\<close>

fun runTimer :: "timer_action \<Rightarrow> notes_state \<Rightarrow> notes_state" where
  "runTimer RefreshTimer st = refreshNotes (st\<lparr>refreshTimeoutRef := None\<rparr>)"
| "runTimer (ReleaseTimer savingNoteId updatedId) st =
     (let st1 = st\<lparr>recentlySavedRef := recentlySavedRef st - {savingNoteId}\<rparr>
      in if truthy updatedId
         then st1\<lparr>recentlySavedRef := recentlySavedRef st1 - {the updatedId}\<rparr>
         else st1)"

definition fireTimer :: "nat \<Rightarrow> notes_state \<Rightarrow> notes_state" where
  "fireTimer h st =
     (case map_of (timers st) h of
        None \<Rightarrow> st
      | Some action \<Rightarrow> runTimer action (clearTimeout h st))"

subsection \<open>selectNote\<close>

text \<open>
  \<^verbatim>\<open>selectNote\<close> sets the selection and clears the external-change flag before it awaits
  the read; the continuation stores the note, or the message of the failure.
\<close>

definition selectNote :: "string \<Rightarrow> notes_state \<Rightarrow> notes_state" where
  "selectNote ident st =
     invoke (ReadNote ident) (st\<lparr>selectedNoteId := Some ident, hasExternalChanges := False\<rparr>)"

fun selectNote_resume :: "thrown + Note \<Rightarrow> notes_state \<Rightarrow> notes_state" where
  "selectNote_resume (Inr note) st = st\<lparr>currentNote := Some note\<rparr>"
| "selectNote_resume (Inl err) st =
     st\<lparr>error := Some (errorMessage err ''Failed to load note'')\<rparr>"

subsection \<open>saveNote\<close>

text \<open>
  \<^verbatim>\<open>saveNote\<close> is an async function with three awaits (the write, and on a rename the
  read and the update of the settings). A suspended call is a \<open>save_task\<close> holding the
  locals that are live at the await; a call that has returned says how.
\<close>

datatype save_task =
    AwaitWrite string
  | AwaitSettings string Note
  | AwaitUpdate string Note

datatype save_result = Skipped | Saved string Note | Failed

datatype save_progress = Await save_task | Return save_result

datatype save_response =
    WriteResponse "thrown + Note"
  | SettingsResponse "thrown + Settings"
  | UpdateResponse "thrown + unit"

text \<open>The rest of the \<^verbatim>\<open>try\<close> block once the write (and the pin transfer) are done.\<close>

definition saveNote_finish :: "string \<Rightarrow> Note \<Rightarrow> notes_state \<Rightarrow> notes_state" where
  "saveNote_finish savingNoteId updated st =
     (let st1 = st\<lparr>hasExternalChanges := False\<rparr>;
          st2 = (if selectedNoteId st1 = Some savingNoteId
                 then st1\<lparr>currentNote := Some updated, selectedNoteId := Some (note_id updated)\<rparr>
                 else st1);
          st3 = scheduleRefresh st2
      in snd (setTimeout (ReleaseTimer savingNoteId (Some (note_id updated))) st3))"

text \<open>The \<^verbatim>\<open>catch\<close> block; \<open>updatedId\<close> is still \<^verbatim>\<open>null\<close> when the write itself failed.\<close>

definition saveNote_catch ::
  "string \<Rightarrow> string option \<Rightarrow> thrown \<Rightarrow> notes_state \<Rightarrow> notes_state" where
  "saveNote_catch savingNoteId updatedId err st =
     (let st1 = st\<lparr>error := Some (errorMessage err ''Failed to save note'')\<rparr>;
          st2 = st1\<lparr>recentlySavedRef := recentlySavedRef st1 - {savingNoteId}\<rparr>
      in if truthy updatedId
         then st2\<lparr>recentlySavedRef := recentlySavedRef st2 - {the updatedId}\<rparr>
         else st2)"

text \<open>
  \<^verbatim>\<open>saveNote\<close> up to its first await. The callback is created by
  \<^verbatim>\<open>useCallback(..., [currentNote, scheduleRefresh])\<close> and reads the \<^verbatim>\<open>currentNote\<close> of
  the render that created it, not the provider's state at the time of the call:
  \<open>closureNote\<close> is that captured value. A caller that holds the callback of the latest
  render passes the provider's \<open>currentNote\<close>; the editor's unmount cleanup (dependency
  list \<^verbatim>\<open>[]\<close>) holds the callback of the editor's first render.
\<close>

definition saveNote ::
  "Note option \<Rightarrow> string \<Rightarrow> string option \<Rightarrow> notes_state \<Rightarrow> save_progress \<times> notes_state" where
  "saveNote closureNote content noteId st =
     (let savingNoteId = (if truthy noteId then noteId else map_option note_id closureNote)
      in if \<not> truthy savingNoteId then (Return Skipped, st)
         else (Await (AwaitWrite (the savingNoteId)),
               invoke (SaveNote (the savingNoteId) content)
                 (st\<lparr>recentlySavedRef := insert (the savingNoteId) (recentlySavedRef st)\<rparr>)))"

fun saveNote_resume ::
  "save_task \<Rightarrow> save_response \<Rightarrow> notes_state \<Rightarrow> save_progress \<times> notes_state" where
  "saveNote_resume (AwaitWrite savingNoteId) (WriteResponse (Inl err)) st =
     (Return Failed, saveNote_catch savingNoteId None err st)"
| "saveNote_resume (AwaitWrite savingNoteId) (WriteResponse (Inr updated)) st =
     (if note_id updated \<noteq> savingNoteId
      then (Await (AwaitSettings savingNoteId updated),
            invoke GetSettings
              (st\<lparr>recentlySavedRef := insert (note_id updated) (recentlySavedRef st)\<rparr>))
      else (Return (Saved savingNoteId updated), saveNote_finish savingNoteId updated st))"
| "saveNote_resume (AwaitSettings savingNoteId updated) (SettingsResponse (Inl err)) st =
     (Return Failed, saveNote_catch savingNoteId (Some (note_id updated)) err st)"
| "saveNote_resume (AwaitSettings savingNoteId updated) (SettingsResponse (Inr currentSettings)) st =
     (let pinnedIds = (case pinnedNoteIds currentSettings of None \<Rightarrow> [] | Some ids \<Rightarrow> ids)
      in if savingNoteId \<in> set pinnedIds
         then (Await (AwaitUpdate savingNoteId updated),
               invoke (UpdateSettings
                         (currentSettings\<lparr>pinnedNoteIds :=
                            Some (map (\<lambda>i. if i = savingNoteId then note_id updated else i)
                                    pinnedIds)\<rparr>)) st)
         else (Return (Saved savingNoteId updated), saveNote_finish savingNoteId updated st))"
| "saveNote_resume (AwaitUpdate savingNoteId updated) (UpdateResponse (Inl err)) st =
     (Return Failed, saveNote_catch savingNoteId (Some (note_id updated)) err st)"
| "saveNote_resume (AwaitUpdate savingNoteId updated) (UpdateResponse (Inr u)) st =
     (Return (Saved savingNoteId updated), saveNote_finish savingNoteId updated st)"
| "saveNote_resume task response st = (Await task, st)"

subsection \<open>search and clearSearch\<close>

text \<open>
  \<^verbatim>\<open>String.prototype.trim\<close> and \<^verbatim>\<open>String.prototype.toLowerCase\<close> are built-in functions
  of the JavaScript runtime, not code of this repository. The model takes them as
  parameters, in a record that the functions calling them receive: whatever is proved
  holds for the built-ins as they are, on every string. \<^verbatim>\<open>includes\<close> (here
  \<open>str_includes\<close>) looks for a contiguous occurrence.
\<close>

record js_runtime =
  jsTrim :: "string \<Rightarrow> string"
  jsToLowerCase :: "string \<Rightarrow> string"

fun str_includes :: "string \<Rightarrow> string \<Rightarrow> bool" where
  "str_includes [] sub = (sub = [])"
| "str_includes (c # cs) sub = (prefix sub (c # cs) \<or> str_includes cs sub)"

text \<open>The instant local results: filter, \<^verbatim>\<open>slice(0, 20)\<close>, map to a result of score 0.\<close>

definition toInstantResult :: "NoteMetadata \<Rightarrow> SearchResult" where
  "toInstantResult note =
     \<lparr>res_id = meta_id note, res_title = meta_title note, res_preview = meta_preview note,
      res_modified = meta_modified note, res_score = 0\<rparr>"

definition instantMatch :: "js_runtime \<Rightarrow> string \<Rightarrow> NoteMetadata \<Rightarrow> bool" where
  "instantMatch rt queryLower note =
     (str_includes (jsToLowerCase rt (meta_title note)) queryLower \<or>
      str_includes (jsToLowerCase rt (meta_preview note)) queryLower)"

definition instantResults ::
  "js_runtime \<Rightarrow> string \<Rightarrow> NoteMetadata list \<Rightarrow> SearchResult list" where
  "instantResults rt queryLower ns =
     map toInstantResult (take 20 (filter (instantMatch rt queryLower) ns))"

text \<open>
  The merge loop: \<open>merged\<close> starts as a copy of the backend results, \<open>seen\<close> holds their
  ids and is not extended while the instant results are appended.
\<close>

definition mergeResults :: "SearchResult list \<Rightarrow> SearchResult list \<Rightarrow> SearchResult list" where
  "mergeResults results instant =
     (let seen = set (map res_id results)
      in fold (\<lambda>result merged. if res_id result \<notin> seen then merged @ [result] else merged)
           instant results)"

text \<open>
  \<^verbatim>\<open>search\<close> up to its await: the request id is the incremented counter; an empty
  trimmed query returns at once. The suspended call keeps its request id and its
  instant results. The counter is a JavaScript number, modelled as a natural number.
\<close>

datatype search_task = AwaitSearch nat "SearchResult list"

definition search ::
  "js_runtime \<Rightarrow> string \<Rightarrow> notes_state \<Rightarrow> search_task option \<times> notes_state" where
  "search rt query st =
     (let requestId = searchRequestIdRef st + 1;
          st1 = st\<lparr>searchRequestIdRef := requestId, searchQuery := query\<rparr>;
          trimmedQuery = jsTrim rt query
      in if trimmedQuery = []
         then (None, st1\<lparr>searchResults := [], isSearching := False\<rparr>)
         else
           (let queryLower = jsToLowerCase rt trimmedQuery;
                instant = instantResults rt queryLower (noteList st1);
                st2 = st1\<lparr>searchResults := instant, isSearching := True\<rparr>
            in (Some (AwaitSearch requestId instant), invoke (SearchNotes trimmedQuery) st2)))"

fun search_resume ::
  "search_task \<Rightarrow> thrown + SearchResult list \<Rightarrow> notes_state \<Rightarrow> notes_state" where
  "search_resume (AwaitSearch requestId instant) (Inr results) st =
     (if requestId \<noteq> searchRequestIdRef st then st
      else
        (let st1 = (if length results = 0 then st\<lparr>searchResults := instant\<rparr>
                    else st\<lparr>searchResults := mergeResults results instant\<rparr>)
         in if requestId \<noteq> searchRequestIdRef st1 then st1 else st1\<lparr>isSearching := False\<rparr>))"
| "search_resume (AwaitSearch requestId instant) (Inl err) st =
     (if requestId \<noteq> searchRequestIdRef st then st else st\<lparr>isSearching := False\<rparr>)"

definition clearSearch :: "notes_state \<Rightarrow> notes_state" where
  "clearSearch st =
     st\<lparr>searchRequestIdRef := searchRequestIdRef st + 1, searchQuery := [],
        searchResults := [], isSearching := False\<rparr>"

subsection \<open>The file-change listener\<close>

text \<open>
  The handler registered for \<^verbatim>\<open>file-change\<close> events; \<open>isCancelled\<close> is the flag of the
  effect that registered it, the payload's \<^verbatim>\<open>changed_ids\<close> may be missing.
\<close>

definition onFileChange :: "bool \<Rightarrow> string list option \<Rightarrow> notes_state \<Rightarrow> notes_state" where
  "onFileChange isCancelled changed_ids st =
     (if isCancelled then st
      else
        (let changedIds = (case changed_ids of None \<Rightarrow> [] | Some ids \<Rightarrow> ids);
             externalChanges = filter (\<lambda>i. i \<notin> recentlySavedRef st) changedIds
         in if length externalChanges > 0
            then
              (let st1 = refreshNotes st;
                   currentId = selectedNoteId st1
               in if truthy currentId \<and> the currentId \<in> set externalChanges
                  then st1\<lparr>hasExternalChanges := True\<rparr>
                  else st1)
            else st))"

subsection \<open>Events of the provider\<close>

text \<open>
  Everything that can run on the provider between two awaits of a call: the start of an
  operation, the delivery of a response to a suspended call, a file-change event, a timer.
\<close>

datatype provider_event =
    SelectNote string
  | SelectResponse "thrown + Note"
  | SaveNoteCall "Note option" string "string option"
  | SaveResponse save_task save_response
  | Search string
  | SearchResponse search_task "thrown + SearchResult list"
  | ClearSearch
  | FileChange bool "string list option"
  | TimerFires nat
  | RefreshResponse "thrown + NoteMetadata list"

fun step :: "js_runtime \<Rightarrow> provider_event \<Rightarrow> notes_state \<Rightarrow> notes_state" where
  "step rt (SelectNote ident) st = selectNote ident st"
| "step rt (SelectResponse r) st = selectNote_resume r st"
| "step rt (SaveNoteCall closureNote content noteId) st =
     snd (saveNote closureNote content noteId st)"
| "step rt (SaveResponse task r) st = snd (saveNote_resume task r st)"
| "step rt (Search query) st = snd (search rt query st)"
| "step rt (SearchResponse task r) st = search_resume task r st"
| "step rt ClearSearch st = clearSearch st"
| "step rt (FileChange isCancelled changed_ids) st = onFileChange isCancelled changed_ids st"
| "step rt (TimerFires h) st = fireTimer h st"
| "step rt (RefreshResponse r) st = refreshNotes_resume r st"

definition run :: "js_runtime \<Rightarrow> provider_event list \<Rightarrow> notes_state \<Rightarrow> notes_state" where
  "run rt es st = fold (step rt) es st"

text \<open>The id a suspended save is saving.\<close>

fun taskNoteId :: "save_task \<Rightarrow> string" where
  "taskNoteId (AwaitWrite savingNoteId) = savingNoteId"
| "taskNoteId (AwaitSettings savingNoteId updated) = savingNoteId"
| "taskNoteId (AwaitUpdate savingNoteId updated) = savingNoteId"

text \<open>The provider's state at mount (the initial values of its cells and refs).\<close>

definition initialState :: notes_state where
  "initialState =
     \<lparr>noteList = [], selectedNoteId = None, currentNote = None, notesFolder = None,
      isLoading = True, error = None, searchQuery = [], searchResults = [],
      isSearching = False, hasExternalChanges = False, reloadVersion = 0,
      recentlySavedRef = {}, refreshTimeoutRef = None, searchRequestIdRef = 0,
      timers = [], nextTimer = 1, invoked = []\<rparr>"

text \<open>Sample data for evaluating the model.\<close>

definition exampleNote :: "string \<Rightarrow> string \<Rightarrow> Note" where
  "exampleNote ident content =
     \<lparr>note_id = ident, note_title = ident, note_content = content, note_path = ident,
      note_modified = 0\<rparr>"

definition exampleMeta :: "string \<Rightarrow> string \<Rightarrow> string \<Rightarrow> NoteMetadata" where
  "exampleMeta ident title preview =
     \<lparr>meta_id = ident, meta_title = title, meta_preview = preview, meta_modified = 0\<rparr>"

definition exampleResult :: "string \<Rightarrow> int \<Rightarrow> SearchResult" where
  "exampleResult ident score =
     \<lparr>res_id = ident, res_title = ident, res_preview = [], res_modified = 0,
      res_score = score\<rparr>"

text \<open>
  A runtime for evaluating the model on sample data: on ASCII text (tab, line feed,
  vertical tab, form feed, carriage return and space as white space, the letters A to Z
  as capitals) these functions agree with the built-ins. They stand for the built-ins
  nowhere but in the evaluations on ASCII samples.
\<close>

definition isAsciiWhiteSpace :: "char \<Rightarrow> bool" where
  "isAsciiWhiteSpace c = (of_char c \<in> {9, 10, 11, 12, 13, 32 :: nat})"

definition asciiTrim :: "string \<Rightarrow> string" where
  "asciiTrim s = rev (dropWhile isAsciiWhiteSpace (rev (dropWhile isAsciiWhiteSpace s)))"

definition asciiToLowerChar :: "char \<Rightarrow> char" where
  "asciiToLowerChar c =
     (case map_of (zip ''ABCDEFGHIJKLMNOPQRSTUVWXYZ'' ''abcdefghijklmnopqrstuvwxyz'') c of
        None \<Rightarrow> c
      | Some lower \<Rightarrow> lower)"

definition asciiRuntime :: js_runtime where
  "asciiRuntime = \<lparr>jsTrim = asciiTrim, jsToLowerCase = map asciiToLowerChar\<rparr>"

section \<open>Editor (components/editor/Editor.tsx)\<close>

text \<open>
  The rich-text document and the markdown codec belong to the TipTap library: the document
  type is a parameter, and a \<open>codec\<close> holds what the editor calls on it.
  \<open>parse\<close> is \<^verbatim>\<open>manager.parse\<close> followed by \<^verbatim>\<open>setContent\<close> and is \<open>None\<close> when
  either throws; \<open>rawDoc\<close> is the document \<^verbatim>\<open>setContent\<close> builds from raw text;
  \<open>hasManager\<close> says whether \<^verbatim>\<open>editor.storage.markdown?.manager\<close> is there.
\<close>

record 'doc codec =
  serialize :: "'doc \<Rightarrow> string"
  getText :: "'doc \<Rightarrow> string"
  parse :: "string \<Rightarrow> 'doc option"
  rawDoc :: "string \<Rightarrow> 'doc"
  hasManager :: bool

text \<open>\<^verbatim>\<open>markdown.replace(/&nbsp;|&#160;/g, " ")\<close>\<close>

fun replaceNbsp :: "string \<Rightarrow> string" where
  "replaceNbsp [] = []"
| "replaceNbsp (c # cs) =
     (if prefix ''&nbsp;'' (c # cs) then CHR '' '' # replaceNbsp (drop 5 cs)
      else if prefix ''&#160;'' (c # cs) then CHR '' '' # replaceNbsp (drop 5 cs)
      else c # replaceNbsp cs)"

fun getMarkdown :: "'doc codec \<Rightarrow> 'doc option \<Rightarrow> string" where
  "getMarkdown cd None = []"
| "getMarkdown cd (Some doc) =
     (if hasManager cd then replaceNbsp (serialize cd doc) else getText cd doc)"

text \<open>
  What the editor does that the claims observe, logged in program order: every write of
  \<^verbatim>\<open>needsSaveRef.current\<close>, every serialization of the buffer, and every call of the
  \<^verbatim>\<open>saveNote\<close> it was given (content, then the optional note id).
\<close>

datatype editor_effect =
    SetNeedsSave bool
  | Serialize
  | CallSaveNote string "string option"

text \<open>
  Closures handed to \<^verbatim>\<open>window.setTimeout\<close>: the debounced save with its captured
  \<open>savingNoteId\<close> (500 ms) and the source-mode save with its captured note and value
  (300 ms).
\<close>

datatype editor_closure =
    SaveTimer string
  | SourceTimer "Note option" string

text \<open>
  The editor's state. \<open>propNote\<close> and \<open>propReloadVersion\<close> are \<^verbatim>\<open>currentNote\<close> and
  \<^verbatim>\<open>reloadVersion\<close> as of the last render; \<^verbatim>\<open>currentNoteIdRef.current\<close> is assigned
  from \<^verbatim>\<open>currentNote\<close> on every render and is read as \<open>propNote\<close>. \<open>editor\<close> is the
  TipTap instance (\<^verbatim>\<open>editor\<close>, \<^verbatim>\<open>editorRef.current\<close>) with its document, \<open>None\<close>
  before it is created. A window timer is a handle, the time it is due and its closure;
  an animation frame callback keeps the captured \<open>loadingNoteId\<close> and whether it will
  focus the buffer.
\<close>

record 'doc editor_state =
  propNote :: "Note option"
  propReloadVersion :: nat
  editor :: "'doc option"
  isSaving :: bool
  sourceMode :: bool
  sourceContent :: string
  saveTimeoutRef :: "nat option"
  sourceTimeoutRef :: "nat option"
  isLoadingRef :: bool
  needsSaveRef :: bool
  loadedNoteIdRef :: "string option"
  loadedModifiedRef :: "nat option"
  lastSaveRef :: "(string \<times> string) option"
  lastReloadVersionRef :: nat
  clock :: nat
  windowTimers :: "(nat \<times> nat \<times> editor_closure) list"
  nextHandle :: nat
  frames :: "(string \<times> bool) list"
  effects :: "editor_effect list"

definition logEffect :: "editor_effect \<Rightarrow> 'doc editor_state \<Rightarrow> 'doc editor_state" where
  "logEffect e st = st\<lparr>effects := effects st @ [e]\<rparr>"

definition windowSetTimeout ::
  "editor_closure \<Rightarrow> nat \<Rightarrow> 'doc editor_state \<Rightarrow> nat \<times> 'doc editor_state" where
  "windowSetTimeout closure delay st =
     (nextHandle st,
      st\<lparr>windowTimers := windowTimers st @ [(nextHandle st, clock st + delay, closure)],
         nextHandle := Suc (nextHandle st)\<rparr>)"

definition windowClearTimeout :: "nat \<Rightarrow> 'doc editor_state \<Rightarrow> 'doc editor_state" where
  "windowClearTimeout h st = st\<lparr>windowTimers := filter (\<lambda>t. fst t \<noteq> h) (windowTimers st)\<rparr>"

subsection \<open>The autosave scheduler\<close>

text \<open>\<^verbatim>\<open>saveImmediately\<close> up to its await, and its \<^verbatim>\<open>finally\<close> block.\<close>

definition saveImmediately :: "string \<Rightarrow> string \<Rightarrow> 'doc editor_state \<Rightarrow> 'doc editor_state" where
  "saveImmediately noteId content st =
     logEffect (CallSaveNote content (Some noteId))
       (st\<lparr>isSaving := True, lastSaveRef := Some (noteId, content)\<rparr>)"

definition saveImmediately_resume :: "'doc editor_state \<Rightarrow> 'doc editor_state" where
  "saveImmediately_resume st = st\<lparr>isSaving := False\<rparr>"

definition flushPendingSave :: "'doc codec \<Rightarrow> 'doc editor_state \<Rightarrow> 'doc editor_state" where
  "flushPendingSave cd st =
     (let st1 = (case saveTimeoutRef st of
                   None \<Rightarrow> st
                 | Some h \<Rightarrow> (windowClearTimeout h st)\<lparr>saveTimeoutRef := None\<rparr>)
      in if needsSaveRef st1 \<and> editor st1 \<noteq> None \<and> truthy (loadedNoteIdRef st1)
         then
           (let st2 = logEffect (SetNeedsSave False) (st1\<lparr>needsSaveRef := False\<rparr>);
                markdown = getMarkdown cd (editor st2);
                st3 = logEffect Serialize st2
            in saveImmediately (the (loadedNoteIdRef st3)) markdown st3)
         else st1)"

definition scheduleSave :: "'doc editor_state \<Rightarrow> 'doc editor_state" where
  "scheduleSave st =
     (let st1 = (case saveTimeoutRef st of None \<Rightarrow> st | Some h \<Rightarrow> windowClearTimeout h st);
          savingNoteId = map_option note_id (propNote st1)
      in if \<not> truthy savingNoteId then st1
         else
           (let st2 = logEffect (SetNeedsSave True) (st1\<lparr>needsSaveRef := True\<rparr>);
                (h', st3) = windowSetTimeout (SaveTimer (the savingNoteId)) 500 st2
            in st3\<lparr>saveTimeoutRef := Some h'\<rparr>))"

text \<open>The callback of the debounce timer.\<close>

definition saveTimerFired :: "'doc codec \<Rightarrow> string \<Rightarrow> 'doc editor_state \<Rightarrow> 'doc editor_state" where
  "saveTimerFired cd savingNoteId st =
     (if map_option note_id (propNote st) \<noteq> Some savingNoteId \<or> \<not> needsSaveRef st then st
      else if editor st \<noteq> None
      then
        (let st1 = logEffect (SetNeedsSave False) (st\<lparr>needsSaveRef := False\<rparr>);
             markdown = getMarkdown cd (editor st1);
             st2 = logEffect Serialize st1
         in saveImmediately savingNoteId markdown st2)
      else st)"

definition onUpdate :: "'doc editor_state \<Rightarrow> 'doc editor_state" where
  "onUpdate st = (if isLoadingRef st then st else scheduleSave st)"

text \<open>
  \<^verbatim>\<open>handleSourceChange\<close> and the callback of its timer, up to the await of
  \<^verbatim>\<open>saveNote\<close>; the note is the one captured when the handler was created.
\<close>

definition handleSourceChange :: "string \<Rightarrow> 'doc editor_state \<Rightarrow> 'doc editor_state" where
  "handleSourceChange v st =
     (let st1 = st\<lparr>sourceContent := v\<rparr>;
          st2 = (case sourceTimeoutRef st1 of None \<Rightarrow> st1 | Some h \<Rightarrow> windowClearTimeout h st1);
          (h', st3) = windowSetTimeout (SourceTimer (propNote st2) v) 300 st2
      in st3\<lparr>sourceTimeoutRef := Some h'\<rparr>)"

fun sourceTimerFired :: "Note option \<Rightarrow> string \<Rightarrow> 'doc editor_state \<Rightarrow> 'doc editor_state" where
  "sourceTimerFired None v st = st"
| "sourceTimerFired (Some note) v st =
     logEffect (CallSaveNote v (Some (note_id note)))
       (st\<lparr>isSaving := True, lastSaveRef := Some (note_id note, v)\<rparr>)"

text \<open>
  A user edit of the buffer: TipTap replaces the document and calls \<^verbatim>\<open>onUpdate\<close>.
  There is nothing to edit before the editor exists.
\<close>

definition mutate :: "'doc \<Rightarrow> 'doc editor_state \<Rightarrow> 'doc editor_state" where
  "mutate doc st = (if editor st = None then st else onUpdate (st\<lparr>editor := Some doc\<rparr>))"

text \<open>
  Time passes: the timers that have become due leave the table and their callbacks run,
  in the order they were set (all delays of one kind are equal).
\<close>

fun runClosure :: "'doc codec \<Rightarrow> editor_closure \<Rightarrow> 'doc editor_state \<Rightarrow> 'doc editor_state" where
  "runClosure cd (SaveTimer savingNoteId) st = saveTimerFired cd savingNoteId st"
| "runClosure cd (SourceTimer note v) st = sourceTimerFired note v st"

definition advance :: "'doc codec \<Rightarrow> nat \<Rightarrow> 'doc editor_state \<Rightarrow> 'doc editor_state" where
  "advance cd d st =
     (let now = clock st + d;
          due = filter (\<lambda>t. fst (snd t) \<le> now) (windowTimers st);
          st1 = st\<lparr>clock := now,
                   windowTimers := filter (\<lambda>t. \<not> fst (snd t) \<le> now) (windowTimers st)\<rparr>
      in fold (\<lambda>t. runClosure cd (snd (snd t))) due st1)"

text \<open>A run of edits, each after the given gap, all of it within one note and one render.\<close>

fun edits :: "'doc codec \<Rightarrow> (nat \<times> 'doc) list \<Rightarrow> 'doc editor_state \<Rightarrow> 'doc editor_state" where
  "edits cd [] st = st"
| "edits cd ((gap, doc) # rest) st = edits cd rest (mutate doc (advance cd gap st))"

subsection \<open>The load/reconcile effect\<close>

text \<open>
  \<^verbatim>\<open>setContent\<close> inside the effect: the parsed content, or the raw text when there is
  no manager or parsing throws. The update it emits finds \<^verbatim>\<open>isLoadingRef\<close> set.
\<close>

definition setContent :: "'doc codec \<Rightarrow> string \<Rightarrow> 'doc editor_state \<Rightarrow> 'doc editor_state" where
  "setContent cd text st =
     (let doc = (if hasManager cd
                 then (case parse cd text of Some parsed \<Rightarrow> parsed | None \<Rightarrow> rawDoc cd text)
                 else rawDoc cd text)
      in onUpdate (st\<lparr>editor := Some doc\<rparr>))"

text \<open>
  \<^verbatim>\<open>toggleSourceMode\<close>: entering source mode copies the buffer's markdown into the raw
  text; leaving it puts the raw text back into the buffer.
\<close>

definition toggleSourceMode :: "'doc codec \<Rightarrow> 'doc editor_state \<Rightarrow> 'doc editor_state" where
  "toggleSourceMode cd st =
     (if editor st = None then st
      else if \<not> sourceMode st
      then st\<lparr>sourceContent := getMarkdown cd (editor st), sourceMode := True\<rparr>
      else (setContent cd (sourceContent st) st)\<lparr>sourceMode := False\<rparr>)"

definition isRenameEcho :: "Note \<Rightarrow> 'doc editor_state \<Rightarrow> bool" where
  "isRenameEcho note st =
     (case lastSaveRef st of
        None \<Rightarrow> False
      | Some (noteId, content) \<Rightarrow>
          Some noteId = loadedNoteIdRef st \<and> content = note_content note)"

definition loadEffect ::
  "js_runtime \<Rightarrow> 'doc codec \<Rightarrow> 'doc editor_state \<Rightarrow> 'doc editor_state" where
  "loadEffect rt cd st =
     (case propNote st of
        None \<Rightarrow> st
      | Some note \<Rightarrow>
          if editor st = None then st
          else
            (let isSameNote = (Some (note_id note) = loadedNoteIdRef st)
             in if \<not> isSameNote \<and> isRenameEcho note st
                then
                  (let st1 = st\<lparr>loadedNoteIdRef := Some (note_id note),
                                  loadedModifiedRef := Some (note_modified note),
                                  lastSaveRef := None\<rparr>
                   in if needsSaveRef st1 then flushPendingSave cd st1 else st1)
                else
                  (let st1 = (if \<not> isSameNote \<and> needsSaveRef st
                              then flushPendingSave cd st else st);
                       st2 = (if \<not> isSameNote
                              then (case sourceTimeoutRef st1 of
                                      None \<Rightarrow> st1\<lparr>sourceMode := False\<rparr>
                                    | Some h \<Rightarrow>
                                        (windowClearTimeout h (st1\<lparr>sourceMode := False\<rparr>))
                                          \<lparr>sourceTimeoutRef := None\<rparr>)
                              else st1);
                       isManualReload = (propReloadVersion st2 \<noteq> lastReloadVersionRef st2)
                   in if isSameNote
                      then
                        (if isManualReload
                         then
                           (let st3 = st2\<lparr>lastReloadVersionRef := propReloadVersion st2,
                                           loadedModifiedRef := Some (note_modified note),
                                           isLoadingRef := True\<rparr>;
                                st4 = setContent cd (note_content note) st3
                            in st4\<lparr>isLoadingRef := False\<rparr>)
                         else st2\<lparr>loadedModifiedRef := Some (note_modified note)\<rparr>)
                      else
                        (let isNewNote = (loadedNoteIdRef st2 = None);
                             wasEmpty = (\<not> isNewNote \<and> jsTrim rt (note_content note) = []);
                             st3 = st2\<lparr>loadedNoteIdRef := Some (note_id note),
                                         loadedModifiedRef := Some (note_modified note),
                                         isLoadingRef := True\<rparr>;
                             st4 = setContent cd (note_content note) st3
                         in st4\<lparr>frames := frames st4 @
                                  [(note_id note,
                                    (isNewNote \<or> wasEmpty) \<and>
                                    jsTrim rt (note_content note) = [])]\<rparr>))))"

text \<open>The animation-frame callback of a load, and a render with new props.\<close>

definition frameFired :: "string \<Rightarrow> 'doc editor_state \<Rightarrow> 'doc editor_state" where
  "frameFired loadingNoteId st =
     (if loadedNoteIdRef st \<noteq> Some loadingNoteId then st else st\<lparr>isLoadingRef := False\<rparr>)"

definition render ::
  "js_runtime \<Rightarrow> 'doc codec \<Rightarrow> Note option \<Rightarrow> nat \<Rightarrow> 'doc editor_state \<Rightarrow>
     'doc editor_state" where
  "render rt cd note version st =
     loadEffect rt cd (st\<lparr>propNote := note, propReloadVersion := version\<rparr>)"

text \<open>The cleanup on unmount: it serializes without the entity clean-up and passes no id.\<close>

definition unmount :: "'doc codec \<Rightarrow> 'doc editor_state \<Rightarrow> 'doc editor_state" where
  "unmount cd st =
     (let st1 = (case saveTimeoutRef st of None \<Rightarrow> st | Some h \<Rightarrow> windowClearTimeout h st)
      in case editor st1 of
           None \<Rightarrow> st1
         | Some doc \<Rightarrow>
             if needsSaveRef st1
             then
               (let st2 = logEffect (SetNeedsSave False) (st1\<lparr>needsSaveRef := False\<rparr>);
                    markdown = (if hasManager cd then serialize cd doc else getText cd doc);
                    st3 = logEffect Serialize st2
                in logEffect (CallSaveNote markdown None) st3)
             else st1)"

text \<open>The calls of \<^verbatim>\<open>saveNote\<close> in a log, as (note id, content).\<close>

fun saveCalls :: "editor_effect list \<Rightarrow> (string option \<times> string) list" where
  "saveCalls [] = []"
| "saveCalls (CallSaveNote content noteId # es) = (noteId, content) # saveCalls es"
| "saveCalls (e # es) = saveCalls es"

text \<open>All queued animation-frame callbacks run.\<close>

definition animationFrame :: "'doc editor_state \<Rightarrow> 'doc editor_state" where
  "animationFrame st = fold (\<lambda>f. frameFired (fst f)) (frames st) (st\<lparr>frames := []\<rparr>)"

text \<open>The editor's state at mount, before TipTap has created the instance.\<close>

definition initialEditor :: "'doc editor_state" where
  "initialEditor =
     \<lparr>propNote = None, propReloadVersion = 0, editor = None, isSaving = False,
      sourceMode = False, sourceContent = [], saveTimeoutRef = None, sourceTimeoutRef = None,
      isLoadingRef = False, needsSaveRef = False, loadedNoteIdRef = None,
      loadedModifiedRef = None, lastSaveRef = None, lastReloadVersionRef = 0, clock = 0,
      windowTimers = [], nextHandle = 1, frames = [], effects = []\<rparr>"

text \<open>A codec for evaluating the model: the document is its own markdown.\<close>

definition textCodec :: "string codec" where
  "textCodec =
     \<lparr>serialize = (\<lambda>doc. doc), getText = (\<lambda>doc. doc), parse = Some,
      rawDoc = (\<lambda>text. text), hasManager = True\<rparr>"

text \<open>
  Two states of the scheduler used by the proofs. \<open>debouncing\<close>: the buffer holds
  \<open>doc\<close>, it is dirty, and the one pending timer is the debounce timer set at the current
  time. \<open>onlySaveTimer\<close>: no timer is pending but the one \<^verbatim>\<open>saveTimeoutRef\<close> holds.
\<close>

definition debouncing :: "Note \<Rightarrow> 'doc \<Rightarrow> 'doc editor_state \<Rightarrow> bool" where
  "debouncing note doc st \<longleftrightarrow>
     propNote st = Some note \<and> editor st = Some doc \<and> \<not> isLoadingRef st \<and> needsSaveRef st \<and>
     (case saveTimeoutRef st of
        None \<Rightarrow> False
      | Some h \<Rightarrow> windowTimers st = [(h, clock st + 500, SaveTimer (note_id note))])"

definition onlySaveTimer :: "'doc editor_state \<Rightarrow> bool" where
  "onlySaveTimer st = list_all (\<lambda>t. saveTimeoutRef st = Some (fst t)) (windowTimers st)"

text \<open>
  A note is loaded and shown, the user edits it, the debounced save is issued, and the
  user types again while that save is in flight.
\<close>

definition loadedEditor :: "string editor_state" where
  "loadedEditor =
     animationFrame
       (render asciiRuntime textCodec (Some (exampleNote ''title-one'' ''Title one'')) 0
          (initialEditor\<lparr>editor := Some []\<rparr>))"

definition typingDuringSave :: "string editor_state" where
  "typingDuringSave =
     mutate ''Title two!'' (advance textCodec 500 (mutate ''Title two'' loadedEditor))"

text \<open>
  The same for source mode: a run of changes of the raw text, and the state in which the
  one pending timer is the source timer set at the current time for the value \<open>v\<close>.
\<close>

fun sourceEdits ::
  "'doc codec \<Rightarrow> (nat \<times> string) list \<Rightarrow> 'doc editor_state \<Rightarrow> 'doc editor_state" where
  "sourceEdits cd [] st = st"
| "sourceEdits cd ((gap, v) # rest) st =
     sourceEdits cd rest (handleSourceChange v (advance cd gap st))"

definition sourceDebouncing :: "Note \<Rightarrow> string \<Rightarrow> 'doc editor_state \<Rightarrow> bool" where
  "sourceDebouncing note v st \<longleftrightarrow>
     propNote st = Some note \<and>
     (case sourceTimeoutRef st of
        None \<Rightarrow> False
      | Some h \<Rightarrow> windowTimers st = [(h, clock st + 300, SourceTimer (Some note) v)])"

text \<open>
  The same typing in source mode: the user switches to source mode and changes the title,
  the source timer fires and saves under the loaded id, and the user types again while
  that save is in flight. Then the save is answered: the note comes back renamed, with
  the content that was saved, and the editor is rendered with it.
\<close>

definition typingInSourceMode :: "string editor_state" where
  "typingInSourceMode =
     handleSourceChange ''Title two!''
       (advance textCodec 300
          (handleSourceChange ''Title two'' (toggleSourceMode textCodec loadedEditor)))"

definition renamedInSourceMode :: "string editor_state" where
  "renamedInSourceMode =
     render asciiRuntime textCodec (Some (exampleNote ''title-two'' ''Title two'')) 0
       typingInSourceMode"

section \<open>Properties of the notes provider\<close>

subsection \<open>Saving\<close>

lemma saveNote_task:
  "saveNote closureNote content noteId st = (Await task, st') \<Longrightarrow>
     task = AwaitWrite (if truthy noteId then the noteId else note_id (the closureNote))"
  by (cases noteId; cases closureNote) (auto simp: saveNote_def Let_def split: if_splits)

lemma saveNote_with_id_issues_write:
  assumes "noteId \<noteq> []"
  shows "fst (saveNote closureNote content (Some noteId) st) = Await (AwaitWrite noteId)"
    and "invoked (snd (saveNote closureNote content (Some noteId) st)) =
           invoked st @ [SaveNote noteId content]"
    and "noteId \<in> recentlySavedRef (snd (saveNote closureNote content (Some noteId) st))"
  using assms by (simp_all add: saveNote_def invoke_def)

lemma saveNote_finish_selection:
  "selectedNoteId (saveNote_finish s u st) =
     (if selectedNoteId st = Some s then Some (note_id u) else selectedNoteId st)"
  "currentNote (saveNote_finish s u st) =
     (if selectedNoteId st = Some s then Some u else currentNote st)"
  by (simp_all add: saveNote_finish_def scheduleRefresh_def setTimeout_def clearTimeout_def
      Let_def split: option.splits prod.splits)

lemma saveNote_resume_Saved:
  assumes "saveNote_resume task response st = (Return (Saved s u), st')"
  shows "st' = saveNote_finish s u st" and "s = taskNoteId task"
    and "case task of AwaitWrite x \<Rightarrow> response = WriteResponse (Inr u)
         | AwaitSettings x v \<Rightarrow> v = u | AwaitUpdate x v \<Rightarrow> v = u"
  using assms
  by (induction task response st rule: saveNote_resume.induct)
     (auto simp: Let_def split: if_splits)

text \<open>
  C1. Whenever a suspended \<^verbatim>\<open>saveNote\<close> call completes successfully (its last await
  resolves and the \<^verbatim>\<open>try\<close> block runs to its end), with \<open>st\<close> the provider's state at
  that moment: the id being saved is the one the call started with and \<open>updated\<close> is the
  note the write returned; if the selection still equals the id being saved, the
  selection becomes the returned note's id (renamed or not) and the current note becomes
  the returned note; otherwise the selection and the current note are left as they are.
\<close>

theorem saveNote_updates_selection_iff_still_selected:
  assumes "saveNote_resume task response st = (Return (Saved savingNoteId updated), st')"
  shows "savingNoteId = taskNoteId task
       \<and> (case task of AwaitWrite x \<Rightarrow> response = WriteResponse (Inr updated)
          | AwaitSettings x v \<Rightarrow> v = updated | AwaitUpdate x v \<Rightarrow> v = updated)
       \<and> (selectedNoteId st = Some savingNoteId \<longrightarrow>
            selectedNoteId st' = Some (note_id updated) \<and> currentNote st' = Some updated)
       \<and> (selectedNoteId st \<noteq> Some savingNoteId \<longrightarrow>
            selectedNoteId st' = selectedNoteId st \<and> currentNote st' = currentNote st)"
  using saveNote_resume_Saved [OF assms] by (simp add: saveNote_finish_selection)

theorem saveNote_updates_selection_iff_still_selected_witness:
  "selectedNoteId
     (snd (saveNote_resume (AwaitSettings ''a'' (exampleNote ''b'' ''text''))
             (SettingsResponse (Inr \<lparr>pinnedNoteIds = None, otherSettings = []\<rparr>))
             (initialState\<lparr>selectedNoteId := Some ''a'',
                            currentNote := Some (exampleNote ''a'' ''old'')\<rparr>))) = Some ''b''
   \<and> currentNote
     (snd (saveNote_resume (AwaitSettings ''a'' (exampleNote ''b'' ''text''))
             (SettingsResponse (Inr \<lparr>pinnedNoteIds = None, otherSettings = []\<rparr>))
             (initialState\<lparr>selectedNoteId := Some ''a'',
                            currentNote := Some (exampleNote ''a'' ''old'')\<rparr>)))
       = Some (exampleNote ''b'' ''text'')
   \<and> selectedNoteId
     (snd (saveNote_resume (AwaitWrite ''a'') (WriteResponse (Inr (exampleNote ''a'' ''text'')))
             (initialState\<lparr>selectedNoteId := Some ''c'',
                            currentNote := Some (exampleNote ''c'' ''other'')\<rparr>))) = Some ''c''
   \<and> currentNote
     (snd (saveNote_resume (AwaitWrite ''a'') (WriteResponse (Inr (exampleNote ''a'' ''text'')))
             (initialState\<lparr>selectedNoteId := Some ''c'',
                            currentNote := Some (exampleNote ''c'' ''other'')\<rparr>)))
       = Some (exampleNote ''c'' ''other'')"
proof -
  let ?renamed = "saveNote_resume (AwaitSettings ''a'' (exampleNote ''b'' ''text''))
             (SettingsResponse (Inr \<lparr>pinnedNoteIds = None, otherSettings = []\<rparr>))
             (initialState\<lparr>selectedNoteId := Some ''a'',
                            currentNote := Some (exampleNote ''a'' ''old'')\<rparr>)"
  let ?switched = "saveNote_resume (AwaitWrite ''a'')
             (WriteResponse (Inr (exampleNote ''a'' ''text'')))
             (initialState\<lparr>selectedNoteId := Some ''c'',
                            currentNote := Some (exampleNote ''c'' ''other'')\<rparr>)"
  have r: "?renamed = (Return (Saved ''a'' (exampleNote ''b'' ''text'')), snd ?renamed)"
    by (simp add: exampleNote_def)
  have s: "?switched = (Return (Saved ''a'' (exampleNote ''a'' ''text'')), snd ?switched)"
    by (simp add: exampleNote_def)
  show ?thesis
    using saveNote_updates_selection_iff_still_selected [OF r]
      saveNote_updates_selection_iff_still_selected [OF s]
    by (simp add: initialState_def exampleNote_def)
qed




subsection \<open>Selecting\<close>

text \<open>
  C7 as stated fails: the selection is set before the read is awaited and the failure
  handler does not restore it. With note \<open>a\<close> selected, \<^verbatim>\<open>selectNote("b")\<close> whose read
  fails leaves \<open>b\<close> selected.
\<close>

theorem selectNote_read_failure_counterexample:
  "selectedNoteId
     (selectNote_resume (Inl (Error ''gone''))
        (selectNote ''b'' (initialState\<lparr>selectedNoteId := Some ''a''\<rparr>))) = Some ''b''"
  by (simp add: selectNote_def invoke_def initialState_def)

text \<open>
  C7, amended. When the read of \<^verbatim>\<open>selectNote(id)\<close> fails, the error message is
  stored (the message of the \<^verbatim>\<open>Error\<close>, or "Failed to load note"), the current note
  is the one from before the call, the selected id is the requested id and the
  external-change flag is cleared; nothing else changes but the log of the read.
\<close>

theorem selectNote_read_failure:
  "selectNote_resume (Inl err) (selectNote ident st) =
     st\<lparr>selectedNoteId := Some ident, hasExternalChanges := False,
        invoked := invoked st @ [ReadNote ident],
        error := Some (errorMessage err ''Failed to load note'')\<rparr>
   \<and> error (selectNote_resume (Inl err) (selectNote ident st)) =
        Some (errorMessage err ''Failed to load note'')
   \<and> currentNote (selectNote_resume (Inl err) (selectNote ident st)) = currentNote st
   \<and> selectedNoteId (selectNote_resume (Inl err) (selectNote ident st)) = Some ident
   \<and> \<not> hasExternalChanges (selectNote_resume (Inl err) (selectNote ident st))"
  by (simp add: selectNote_def invoke_def)

theorem selectNote_read_failure_witness:
  "error (selectNote_resume (Inl (Error ''gone''))
            (selectNote ''b'' (initialState\<lparr>selectedNoteId := Some ''a'',
               currentNote := Some (exampleNote ''a'' ''text'')\<rparr>))) = Some ''gone''
   \<and> currentNote (selectNote_resume (Inl (Error ''gone''))
            (selectNote ''b'' (initialState\<lparr>selectedNoteId := Some ''a'',
               currentNote := Some (exampleNote ''a'' ''text'')\<rparr>)))
        = Some (exampleNote ''a'' ''text'')"
  using selectNote_read_failure [of "Error ''gone''" "''b''"
      "initialState\<lparr>selectedNoteId := Some ''a'',
         currentNote := Some (exampleNote ''a'' ''text'')\<rparr>"]
  by (simp add: initialState_def)


subsection \<open>File-change events\<close>

lemma onFileChange_filtered:
  "onFileChange isCancelled (Some changedIds) st =
     onFileChange isCancelled (Some (filter (\<lambda>j. j \<notin> recentlySavedRef st) changedIds)) st"
  by (simp add: onFileChange_def)

lemma refreshNotes_fields:
  "hasExternalChanges (refreshNotes st) = hasExternalChanges st"
  "selectedNoteId (refreshNotes st) = selectedNoteId st"
  "currentNote (refreshNotes st) = currentNote st"
  "reloadVersion (refreshNotes st) = reloadVersion st"
  "recentlySavedRef (refreshNotes st) = recentlySavedRef st"
  "searchRequestIdRef (refreshNotes st) = searchRequestIdRef st"
  by (simp_all add: refreshNotes_def invoke_def)

lemma onFileChange_flag_source:
  assumes "hasExternalChanges (onFileChange isCancelled (Some changedIds) st)"
    and "\<not> hasExternalChanges st"
  shows "\<exists>j \<in> set changedIds. j \<notin> recentlySavedRef st \<and> selectedNoteId st = Some j"
  using assms
  by (cases "selectedNoteId st")
     (auto simp: onFileChange_def refreshNotes_fields Let_def split: if_splits)

text \<open>
  C4. Let \<open>i\<close> be an id in the recently-saved set when a file-change event is handled.
  The handler does exactly what it does for the event without \<open>i\<close> (and without every
  other recently-saved id), so \<open>i\<close> never sets the external-change flag; when the flag
  goes from unset to set, an id of the event that is not in the set is the selected one;
  and when \<open>i\<close> itself is the selected note the flag keeps its value.
\<close>

theorem recently_saved_id_never_sets_flag:
  assumes "i \<in> recentlySavedRef st"
  shows "onFileChange isCancelled (Some changedIds) st =
           onFileChange isCancelled (Some (removeAll i changedIds)) st
       \<and> onFileChange isCancelled (Some changedIds) st =
           onFileChange isCancelled
             (Some (filter (\<lambda>j. j \<notin> recentlySavedRef st) changedIds)) st
       \<and> (hasExternalChanges (onFileChange isCancelled (Some changedIds) st) \<and>
            \<not> hasExternalChanges st \<longrightarrow>
            (\<exists>j \<in> set changedIds. j \<notin> recentlySavedRef st \<and> selectedNoteId st = Some j))
       \<and> (selectedNoteId st = Some i \<longrightarrow>
            hasExternalChanges (onFileChange isCancelled (Some changedIds) st) =
              hasExternalChanges st)"
proof (intro conjI impI)
  have "filter (\<lambda>j. j \<notin> recentlySavedRef st) (removeAll i changedIds) =
        filter (\<lambda>j. j \<notin> recentlySavedRef st) changedIds"
    using assms by (induction changedIds) auto
  then show "onFileChange isCancelled (Some changedIds) st =
      onFileChange isCancelled (Some (removeAll i changedIds)) st"
    using onFileChange_filtered [of isCancelled changedIds st]
      onFileChange_filtered [of isCancelled "removeAll i changedIds" st]
    by simp
next
  show "onFileChange isCancelled (Some changedIds) st =
      onFileChange isCancelled (Some (filter (\<lambda>j. j \<notin> recentlySavedRef st) changedIds)) st"
    by (rule onFileChange_filtered)
next
  assume "hasExternalChanges (onFileChange isCancelled (Some changedIds) st) \<and>
      \<not> hasExternalChanges st"
  then show "\<exists>j \<in> set changedIds. j \<notin> recentlySavedRef st \<and> selectedNoteId st = Some j"
    using onFileChange_flag_source by blast
next
  assume sel: "selectedNoteId st = Some i"
  show "hasExternalChanges (onFileChange isCancelled (Some changedIds) st) =
      hasExternalChanges st"
    using assms sel by (auto simp: onFileChange_def refreshNotes_fields Let_def)
qed

theorem recently_saved_id_never_sets_flag_witness:
  "hasExternalChanges
     (onFileChange False (Some [''a'', ''b''])
        (initialState\<lparr>selectedNoteId := Some ''a'', recentlySavedRef := {''a''}\<rparr>)) = False
   \<and> onFileChange False (Some [''a'', ''b''])
        (initialState\<lparr>selectedNoteId := Some ''b'', recentlySavedRef := {''a''}\<rparr>) =
      onFileChange False (Some [''b''])
        (initialState\<lparr>selectedNoteId := Some ''b'', recentlySavedRef := {''a''}\<rparr>)
   \<and> hasExternalChanges
     (onFileChange False (Some [''a'', ''b''])
        (initialState\<lparr>selectedNoteId := Some ''b'', recentlySavedRef := {''a''}\<rparr>)) = True"
proof -
  let ?own = "initialState\<lparr>selectedNoteId := Some ''a'', recentlySavedRef := {''a''}\<rparr>"
  let ?other = "initialState\<lparr>selectedNoteId := Some ''b'', recentlySavedRef := {''a''}\<rparr>"
  have a: "''a'' \<in> recentlySavedRef ?own" by simp
  have b: "''a'' \<in> recentlySavedRef ?other" by simp
  have c: "hasExternalChanges (onFileChange False (Some [''b'']) ?other)"
    by (simp add: onFileChange_def refreshNotes_def initialState_def)
  have d: "selectedNoteId ?own = Some ''a''" by simp
  have e: "hasExternalChanges ?own = False" by (simp add: initialState_def)
  have f: "removeAll ''a'' [''a'', ''b''] = [''b'']" by simp
  from recently_saved_id_never_sets_flag [OF a, of False "[''a'', ''b'']"] d
  have own: "hasExternalChanges (onFileChange False (Some [''a'', ''b'']) ?own) =
      hasExternalChanges ?own"
    by blast
  from recently_saved_id_never_sets_flag [OF b, of False "[''a'', ''b'']"]
  have other: "onFileChange False (Some [''a'', ''b'']) ?other =
      onFileChange False (Some (removeAll ''a'' [''a'', ''b''])) ?other"
    by (rule conjunct1)
  show ?thesis
  proof (intro conjI)
    show "hasExternalChanges (onFileChange False (Some [''a'', ''b'']) ?own) = False"
      using own e by simp
    show "onFileChange False (Some [''a'', ''b'']) ?other =
        onFileChange False (Some [''b'']) ?other"
      using other unfolding f .
    then show "hasExternalChanges (onFileChange False (Some [''a'', ''b'']) ?other) = True"
      using c by simp
  qed
qed

subsection \<open>Search\<close>

lemma str_includes_sublist: "str_includes s sub \<longleftrightarrow> sublist sub s"
  by (induction s) (auto simp: sublist_Cons_right)

lemma fold_append_filter:
  "fold (\<lambda>x acc. if P x then acc @ [x] else acc) xs acc = acc @ filter P xs"
  by (induction xs arbitrary: acc) auto

lemma mergeResults_eq:
  "mergeResults results instant =
     results @ filter (\<lambda>r. res_id r \<notin> set (map res_id results)) instant"
  by (simp add: mergeResults_def Let_def fold_append_filter)

lemma instantResults_length: "length (instantResults rt q ns) \<le> 20"
  by (simp add: instantResults_def)

lemma instantResults_score: "r \<in> set (instantResults rt q ns) \<Longrightarrow> res_score r = 0"
  by (auto simp: instantResults_def toInstantResult_def)

lemma instantResults_sublist:
  "instantResults rt q ns =
     map toInstantResult
       (take 20 (filter (\<lambda>n. sublist q (jsToLowerCase rt (meta_title n)) \<or>
                              sublist q (jsToLowerCase rt (meta_preview n))) ns))"
proof -
  have "filter (instantMatch rt q) ns =
        filter (\<lambda>n. sublist q (jsToLowerCase rt (meta_title n)) \<or>
                     sublist q (jsToLowerCase rt (meta_preview n))) ns"
    by (rule filter_cong) (simp_all add: instantMatch_def str_includes_sublist)
  then show ?thesis by (simp add: instantResults_def)
qed

lemma search_blank:
  assumes "jsTrim rt query = []"
  shows "search rt query st =
    (None, st\<lparr>searchRequestIdRef := searchRequestIdRef st + 1, searchQuery := query,
              searchResults := [], isSearching := False\<rparr>)"
  using assms by (simp add: search_def Let_def)

lemma search_nonblank:
  assumes "jsTrim rt query \<noteq> []"
  shows "fst (search rt query st) =
      Some (AwaitSearch (searchRequestIdRef st + 1)
              (instantResults rt (jsToLowerCase rt (jsTrim rt query)) (noteList st)))"
    and "searchResults (snd (search rt query st)) =
      instantResults rt (jsToLowerCase rt (jsTrim rt query)) (noteList st)"
    and "invoked (snd (search rt query st)) = invoked st @ [SearchNotes (jsTrim rt query)]"
  using assms by (simp_all add: search_def Let_def invoke_def)

lemma search_resume_latest:
  assumes "searchRequestIdRef st = rid"
  shows "searchResults (search_resume (AwaitSearch rid instant) (Inr results) st) =
     (if results = [] then instant
      else results @ filter (\<lambda>r. res_id r \<notin> set (map res_id results)) instant)"
  using assms by (simp add: mergeResults_eq Let_def)

text \<open>
  C8. \<^verbatim>\<open>trim\<close> and \<^verbatim>\<open>toLowerCase\<close> are the built-ins of whatever runtime \<open>rt\<close> the
  code runs on. A query whose trimmed form is the empty string (the empty query and the
  queries of white space only, whatever the runtime counts as white space) clears the
  results before \<^verbatim>\<open>search\<close> returns and issues no backend search. For every other query,
  with \<open>q\<close> its trimmed, lower-cased form, the results shown at once are the instant
  results: the notes of the in-memory list whose lower-cased title or preview contains
  \<open>q\<close>, the first 20 of them in list order, each with score 0. When the response arrives
  while this request is still the latest: an empty response leaves the instant results
  shown, and a non-empty one shows the backend results in their order followed by exactly
  the instant results whose id is not the id of a backend result.
\<close>

theorem search_shows_instant_then_merged_results:
  "(jsTrim rt query = [] \<longrightarrow>
      fst (search rt query st) = None \<and> searchResults (snd (search rt query st)) = [] \<and>
      invoked (snd (search rt query st)) = invoked st)
   \<and> (jsTrim rt query \<noteq> [] \<longrightarrow>
      (let q = jsToLowerCase rt (jsTrim rt query);
           instant = instantResults rt q (noteList st);
           task = AwaitSearch (searchRequestIdRef st + 1) instant
       in fst (search rt query st) = Some task
          \<and> searchResults (snd (search rt query st)) = instant
          \<and> instant =
              map toInstantResult
                (take 20 (filter (\<lambda>n. sublist q (jsToLowerCase rt (meta_title n)) \<or>
                                       sublist q (jsToLowerCase rt (meta_preview n)))
                           (noteList st)))
          \<and> length instant \<le> 20
          \<and> (\<forall>r \<in> set instant. res_score r = 0)
          \<and> (\<forall>st' results. searchRequestIdRef st' = searchRequestIdRef st + 1 \<longrightarrow>
                searchResults (search_resume task (Inr results) st') =
                  (if results = [] then instant
                   else results @
                        filter (\<lambda>r. res_id r \<notin> set (map res_id results)) instant))))"
proof (intro conjI impI)
  assume t: "jsTrim rt query = []"
  show "fst (search rt query st) = None" by (simp add: search_blank [OF t])
  show "searchResults (snd (search rt query st)) = []" by (simp add: search_blank [OF t])
  show "invoked (snd (search rt query st)) = invoked st" by (simp add: search_blank [OF t])
next
  assume ne: "jsTrim rt query \<noteq> []"
  show "let q = jsToLowerCase rt (jsTrim rt query);
           instant = instantResults rt q (noteList st);
           task = AwaitSearch (searchRequestIdRef st + 1) instant
       in fst (search rt query st) = Some task
          \<and> searchResults (snd (search rt query st)) = instant
          \<and> instant =
              map toInstantResult
                (take 20 (filter (\<lambda>n. sublist q (jsToLowerCase rt (meta_title n)) \<or>
                                       sublist q (jsToLowerCase rt (meta_preview n)))
                           (noteList st)))
          \<and> length instant \<le> 20
          \<and> (\<forall>r \<in> set instant. res_score r = 0)
          \<and> (\<forall>st' results. searchRequestIdRef st' = searchRequestIdRef st + 1 \<longrightarrow>
                searchResults (search_resume task (Inr results) st') =
                  (if results = [] then instant
                   else results @
                        filter (\<lambda>r. res_id r \<notin> set (map res_id results)) instant))"
    unfolding Let_def
  proof (intro conjI allI impI ballI)
    show "fst (search rt query st) =
      Some (AwaitSearch (searchRequestIdRef st + 1)
        (instantResults rt (jsToLowerCase rt (jsTrim rt query)) (noteList st)))"
      by (rule search_nonblank [OF ne])
    show "searchResults (snd (search rt query st)) =
       instantResults rt (jsToLowerCase rt (jsTrim rt query)) (noteList st)"
      by (rule search_nonblank [OF ne])
    show "instantResults rt (jsToLowerCase rt (jsTrim rt query)) (noteList st) =
        map toInstantResult
          (take 20 (filter (\<lambda>n. sublist (jsToLowerCase rt (jsTrim rt query)) (jsToLowerCase rt (meta_title n)) \<or>
                                 sublist (jsToLowerCase rt (jsTrim rt query)) (jsToLowerCase rt (meta_preview n)))
                     (noteList st)))"
      by (rule instantResults_sublist)
    show "length (instantResults rt (jsToLowerCase rt (jsTrim rt query)) (noteList st)) \<le> 20"
      by (rule instantResults_length)
  next
    fix r assume "r \<in> set (instantResults rt (jsToLowerCase rt (jsTrim rt query)) (noteList st))"
    then show "res_score r = 0" by (rule instantResults_score)
  next
    fix st' :: notes_state and results
    assume "searchRequestIdRef st' = searchRequestIdRef st + 1"
    then show "searchResults (search_resume (AwaitSearch (searchRequestIdRef st + 1)
        (instantResults rt (jsToLowerCase rt (jsTrim rt query)) (noteList st))) (Inr results) st') =
       (if results = [] then instantResults rt (jsToLowerCase rt (jsTrim rt query)) (noteList st)
        else results @ filter (\<lambda>r. res_id r \<notin> set (map res_id results))
           (instantResults rt (jsToLowerCase rt (jsTrim rt query)) (noteList st)))"
      by (rule search_resume_latest)
  qed
qed

theorem search_shows_instant_then_merged_results_witness:
  "searchResults (snd (search asciiRuntime ''  '' (initialState\<lparr>searchResults := [exampleResult ''n1'' 2]\<rparr>))) = []
   \<and> searchResults
       (snd (search asciiRuntime '' Ab ''
          (initialState\<lparr>noteList := [exampleMeta ''n1'' ''Cabin'' ''wood'',
                                       exampleMeta ''n2'' ''Notes'' ''about'',
                                       exampleMeta ''n3'' ''Plan'' ''later'']\<rparr>))) =
       [toInstantResult (exampleMeta ''n1'' ''Cabin'' ''wood''),
        toInstantResult (exampleMeta ''n2'' ''Notes'' ''about'')]
   \<and> searchResults
       (search_resume
          (AwaitSearch 1 [toInstantResult (exampleMeta ''n1'' ''Cabin'' ''wood''),
                          toInstantResult (exampleMeta ''n2'' ''Notes'' ''about'')])
          (Inr [exampleResult ''n2'' 5, exampleResult ''n9'' 3])
          (snd (search asciiRuntime '' Ab ''
             (initialState\<lparr>noteList := [exampleMeta ''n1'' ''Cabin'' ''wood'',
                                          exampleMeta ''n2'' ''Notes'' ''about'',
                                          exampleMeta ''n3'' ''Plan'' ''later'']\<rparr>)))) =
       [exampleResult ''n2'' 5, exampleResult ''n9'' 3,
        toInstantResult (exampleMeta ''n1'' ''Cabin'' ''wood'')]"
proof -
  let ?blank = "initialState\<lparr>searchResults := [exampleResult ''n1'' 2]\<rparr>"
  let ?st = "initialState\<lparr>noteList := [exampleMeta ''n1'' ''Cabin'' ''wood'',
                                       exampleMeta ''n2'' ''Notes'' ''about'',
                                       exampleMeta ''n3'' ''Plan'' ''later'']\<rparr>"
  let ?instant = "[toInstantResult (exampleMeta ''n1'' ''Cabin'' ''wood''),
                   toInstantResult (exampleMeta ''n2'' ''Notes'' ''about'')]"
  have ws: "jsTrim asciiRuntime ''  '' = []"
    by (simp add: asciiRuntime_def asciiTrim_def isAsciiWhiteSpace_def)
  have tr: "jsTrim asciiRuntime '' Ab '' = ''Ab''"
    by (simp add: asciiRuntime_def asciiTrim_def isAsciiWhiteSpace_def)
  have lo: "jsToLowerCase asciiRuntime ''Ab'' = ''ab''"
    by (simp add: asciiRuntime_def asciiToLowerChar_def)
  have inst: "instantResults asciiRuntime ''ab'' (noteList ?st) = ?instant"
    by (simp add: instantResults_def instantMatch_def exampleMeta_def asciiRuntime_def asciiToLowerChar_def)
  have ne: "jsTrim asciiRuntime '' Ab '' \<noteq> []" by (simp add: tr)
  have cnt: "searchRequestIdRef (snd (search asciiRuntime '' Ab '' ?st)) = searchRequestIdRef ?st + 1"
    by (simp add: search_def Let_def invoke_def)
  have one: "searchRequestIdRef ?st + 1 = 1" by (simp add: initialState_def)
  have blank: "searchResults (snd (search asciiRuntime ''  '' ?blank)) = []"
    using search_shows_instant_then_merged_results [of asciiRuntime "''  ''" ?blank, THEN conjunct1] ws
    by blast
  note nonblank = search_shows_instant_then_merged_results
    [of asciiRuntime "'' Ab ''" ?st, THEN conjunct2, THEN mp, OF ne,
      unfolded Let_def tr lo inst one]
  have shown: "searchResults (snd (search asciiRuntime '' Ab '' ?st)) = ?instant"
    by (rule nonblank [THEN conjunct2, THEN conjunct1])
  have "searchRequestIdRef (snd (search asciiRuntime '' Ab '' ?st)) = 1 \<longrightarrow>
      searchResults
        (search_resume (AwaitSearch 1 ?instant)
           (Inr [exampleResult ''n2'' 5, exampleResult ''n9'' 3]) (snd (search asciiRuntime '' Ab '' ?st))) =
      (if [exampleResult ''n2'' 5, exampleResult ''n9'' 3] = [] then ?instant
       else [exampleResult ''n2'' 5, exampleResult ''n9'' 3] @
        filter (\<lambda>r. res_id r \<notin> set (map res_id [exampleResult ''n2'' 5, exampleResult ''n9'' 3]))
          ?instant)"
    by (rule nonblank [THEN conjunct2, THEN conjunct2, THEN conjunct2, THEN conjunct2,
          THEN conjunct2, THEN spec, THEN spec])
  then have merged: "searchResults
        (search_resume (AwaitSearch 1 ?instant)
           (Inr [exampleResult ''n2'' 5, exampleResult ''n9'' 3]) (snd (search asciiRuntime '' Ab '' ?st))) =
        [exampleResult ''n2'' 5, exampleResult ''n9'' 3] @
        filter (\<lambda>r. res_id r \<notin> set (map res_id [exampleResult ''n2'' 5, exampleResult ''n9'' 3]))
          ?instant"
    using cnt [unfolded one] by simp
  have flt: "filter (\<lambda>r. res_id r \<notin> set (map res_id [exampleResult ''n2'' 5, exampleResult ''n9'' 3]))
          ?instant = [toInstantResult (exampleMeta ''n1'' ''Cabin'' ''wood'')]"
    by (simp add: exampleResult_def exampleMeta_def toInstantResult_def)
  show ?thesis
  proof (intro conjI)
    show "searchResults (snd (search asciiRuntime ''  '' ?blank)) = []" by (rule blank)
    show "searchResults (snd (search asciiRuntime '' Ab '' ?st)) = ?instant" by (rule shown)
    show "searchResults
        (search_resume (AwaitSearch 1 ?instant)
           (Inr [exampleResult ''n2'' 5, exampleResult ''n9'' 3]) (snd (search asciiRuntime '' Ab '' ?st))) =
       [exampleResult ''n2'' 5, exampleResult ''n9'' 3,
        toInstantResult (exampleMeta ''n1'' ''Cabin'' ''wood'')]"
      using merged unfolding flt by simp
  qed
qed

subsection \<open>Search request ids\<close>

lemma saveNote_finish_counter:
  "searchRequestIdRef (saveNote_finish s u st) = searchRequestIdRef st"
  by (simp add: saveNote_finish_def scheduleRefresh_def setTimeout_def clearTimeout_def
      Let_def split: option.splits prod.splits)

lemma saveNote_catch_counter:
  "searchRequestIdRef (saveNote_catch s u e st) = searchRequestIdRef st"
  by (simp add: saveNote_catch_def Let_def)

lemma saveNote_resume_counter:
  "searchRequestIdRef (snd (saveNote_resume task r st)) = searchRequestIdRef st"
  by (induction task r st rule: saveNote_resume.induct)
     (simp_all add: Let_def invoke_def saveNote_finish_counter saveNote_catch_counter)

lemma search_resume_counter:
  "searchRequestIdRef (search_resume task r st) = searchRequestIdRef st"
  by (cases task; cases r) (simp_all add: Let_def)

lemma runTimer_counter:
  "searchRequestIdRef (runTimer a st) = searchRequestIdRef st"
  by (cases a) (simp_all add: Let_def refreshNotes_fields)

lemma search_counter: "searchRequestIdRef (snd (search rt q st)) = searchRequestIdRef st + 1"
  by (simp add: search_def Let_def invoke_def)

lemma step_counter_mono: "searchRequestIdRef st \<le> searchRequestIdRef (step rt e st)"
proof (cases e)
  case (SelectResponse r)
  then show ?thesis by (cases r) simp_all
next
  case (RefreshResponse r)
  then show ?thesis by (cases r) simp_all
next
  case (FileChange c ids)
  then show ?thesis by (simp add: onFileChange_def Let_def refreshNotes_fields)
next
  case (TimerFires h)
  then show ?thesis
    by (simp add: fireTimer_def clearTimeout_def runTimer_counter split: option.splits)
qed (simp_all add: selectNote_def invoke_def saveNote_def search_counter clearSearch_def
      saveNote_resume_counter search_resume_counter Let_def)

lemma run_counter_mono: "searchRequestIdRef st \<le> searchRequestIdRef (run rt es st)"
  unfolding run_def
proof (induction es arbitrary: st)
  case Nil
  show ?case by simp
next
  case (Cons e es)
  have "searchRequestIdRef st \<le> searchRequestIdRef (step rt e st)" by (rule step_counter_mono)
  also have "\<dots> \<le> searchRequestIdRef (fold (step rt) es (step rt e st))" by (rule Cons.IH)
  finally show ?case by simp
qed

lemma search_task_id:
  "fst (search rt q st) = Some (AwaitSearch rid instant) \<Longrightarrow> rid = searchRequestIdRef st + 1"
  by (simp add: search_def Let_def split: if_splits)

lemma stale_response_noop:
  "rid \<noteq> searchRequestIdRef st \<Longrightarrow> search_resume (AwaitSearch rid instant) r st = st"
  by (cases r) simp_all

text \<open>
  C9. Every \<^verbatim>\<open>search\<close> (and every \<^verbatim>\<open>clearSearch\<close>) raises the request counter by one,
  and the id a search carries is the raised counter, larger than every id issued before.
  A response whose request id is not the counter's current value leaves the whole state,
  and so the displayed results, as it is. Hence, after an earlier search and then a later
  one, whatever events run in between and afterwards (selections, saves, searches, file
  changes, timers and the responses to them, the later search's response included), the
  earlier search's response changes nothing when it arrives. No other operation of the
  provider assigns the counter.
\<close>

theorem stale_search_response_is_discarded:
  "searchRequestIdRef (snd (search rt query st)) = searchRequestIdRef st + 1
   \<and> searchRequestIdRef (clearSearch st) = searchRequestIdRef st + 1
   \<and> (\<forall>rid instant. fst (search rt query st) = Some (AwaitSearch rid instant) \<longrightarrow>
        rid = searchRequestIdRef (snd (search rt query st)) \<and> searchRequestIdRef st < rid)
   \<and> (\<forall>rid instant response. rid \<noteq> searchRequestIdRef st \<longrightarrow>
        search_resume (AwaitSearch rid instant) response st = st)
   \<and> (\<forall>earlier between later after rid instant response.
        fst (search rt earlier st) = Some (AwaitSearch rid instant) \<longrightarrow>
        search_resume (AwaitSearch rid instant) response
          (run rt after (snd (search rt later (run rt between (snd (search rt earlier st)))))) =
        run rt after (snd (search rt later (run rt between (snd (search rt earlier st))))))"
proof (intro conjI allI impI)
  show "searchRequestIdRef (snd (search rt query st)) = searchRequestIdRef st + 1"
    by (rule search_counter)
  show "searchRequestIdRef (clearSearch st) = searchRequestIdRef st + 1"
    by (simp add: clearSearch_def)
next
  fix rid instant
  assume a: "fst (search rt query st) = Some (AwaitSearch rid instant)"
  show "rid = searchRequestIdRef (snd (search rt query st))"
    using search_task_id [OF a] by (simp add: search_counter)
  show "searchRequestIdRef st < rid" using search_task_id [OF a] by simp
next
  fix rid instant response
  assume "rid \<noteq> searchRequestIdRef st"
  then show "search_resume (AwaitSearch rid instant) response st = st"
    by (rule stale_response_noop)
next
  fix earlier between later after rid instant response
  assume a: "fst (search rt earlier st) = Some (AwaitSearch rid instant)"
  let ?s1 = "snd (search rt earlier st)"
  let ?s2 = "snd (search rt later (run rt between ?s1))"
  have "rid = searchRequestIdRef ?s1" using search_task_id [OF a] by (simp add: search_counter)
  also have "\<dots> \<le> searchRequestIdRef (run rt between ?s1)" by (rule run_counter_mono)
  also have "\<dots> < searchRequestIdRef ?s2" by (simp add: search_counter)
  also have "\<dots> \<le> searchRequestIdRef (run rt after ?s2)" by (rule run_counter_mono)
  finally have "rid \<noteq> searchRequestIdRef (run rt after ?s2)" by simp
  then show "search_resume (AwaitSearch rid instant) response (run rt after ?s2) = run rt after ?s2"
    by (rule stale_response_noop)
qed

theorem stale_search_response_is_discarded_witness:
  "searchResults
     (search_resume (AwaitSearch 1 []) (Inr [exampleResult ''old'' 9])
        (run asciiRuntime [SearchResponse (AwaitSearch 2 []) (Inr [exampleResult ''new'' 7])]
           (snd (search asciiRuntime ''abcd'' (run asciiRuntime [] (snd (search asciiRuntime ''abc'' initialState))))))) =
   [exampleResult ''new'' 7]"
proof -
  have a: "fst (search asciiRuntime ''abc'' initialState) = Some (AwaitSearch 1 [])"
    by (simp add: search_def asciiRuntime_def asciiTrim_def isAsciiWhiteSpace_def instantResults_def initialState_def
        Let_def)
  have b: "searchResults
      (run asciiRuntime [SearchResponse (AwaitSearch 2 []) (Inr [exampleResult ''new'' 7])]
           (snd (search asciiRuntime ''abcd'' (run asciiRuntime [] (snd (search asciiRuntime ''abc'' initialState)))))) =
      [exampleResult ''new'' 7]"
    by (simp add: run_def search_def asciiRuntime_def asciiTrim_def isAsciiWhiteSpace_def instantResults_def
        initialState_def invoke_def mergeResults_def Let_def)
  from stale_search_response_is_discarded [of asciiRuntime "''abc''" initialState] a
  have "search_resume (AwaitSearch 1 []) (Inr [exampleResult ''old'' 9])
        (run asciiRuntime [SearchResponse (AwaitSearch 2 []) (Inr [exampleResult ''new'' 7])]
           (snd (search asciiRuntime ''abcd'' (run asciiRuntime [] (snd (search asciiRuntime ''abc'' initialState)))))) =
      run asciiRuntime [SearchResponse (AwaitSearch 2 []) (Inr [exampleResult ''new'' 7])]
           (snd (search asciiRuntime ''abcd'' (run asciiRuntime [] (snd (search asciiRuntime ''abc'' initialState)))))"
    by blast
  then show ?thesis using b by simp
qed


section \<open>Properties of the editor\<close>

subsection \<open>Evaluating the sample states\<close>

lemma getMarkdown_textCodec: "getMarkdown textCodec (Some doc) = replaceNbsp doc"
  by (simp add: textCodec_def)

lemma loadedEditor_eval:
  "loadedEditor =
     \<lparr>propNote = Some (exampleNote ''title-one'' ''Title one''), propReloadVersion = 0,
      editor = Some ''Title one'', isSaving = False, sourceMode = False, sourceContent = [],
      saveTimeoutRef = None, sourceTimeoutRef = None, isLoadingRef = False,
      needsSaveRef = False, loadedNoteIdRef = Some ''title-one'', loadedModifiedRef = Some 0,
      lastSaveRef = None, lastReloadVersionRef = 0, clock = 0, windowTimers = [],
      nextHandle = 1, frames = [], effects = []\<rparr>"
  by (simp add: loadedEditor_def animationFrame_def frameFired_def render_def loadEffect_def
      setContent_def onUpdate_def isRenameEcho_def initialEditor_def textCodec_def
      exampleNote_def asciiRuntime_def asciiTrim_def isAsciiWhiteSpace_def Let_def)

lemma typingDuringSave_eval:
  "typingDuringSave =
     \<lparr>propNote = Some (exampleNote ''title-one'' ''Title one''), propReloadVersion = 0,
      editor = Some ''Title two!'', isSaving = True, sourceMode = False, sourceContent = [],
      saveTimeoutRef = Some 2, sourceTimeoutRef = None, isLoadingRef = False,
      needsSaveRef = True, loadedNoteIdRef = Some ''title-one'', loadedModifiedRef = Some 0,
      lastSaveRef = Some (''title-one'', ''Title two''), lastReloadVersionRef = 0,
      clock = 500, windowTimers = [(2, 1000, SaveTimer ''title-one'')], nextHandle = 3,
      frames = [],
      effects = [SetNeedsSave True, SetNeedsSave False, Serialize,
                 CallSaveNote ''Title two'' (Some ''title-one''), SetNeedsSave True]\<rparr>"
  by (simp add: typingDuringSave_def loadedEditor_eval mutate_def onUpdate_def scheduleSave_def
      windowClearTimeout_def windowSetTimeout_def logEffect_def advance_def saveTimerFired_def
      saveImmediately_def textCodec_def exampleNote_def Let_def)

subsection \<open>The debounce timer\<close>

lemma saveCalls_append: "saveCalls (xs @ ys) = saveCalls xs @ saveCalls ys"
  by (induction xs rule: saveCalls.induct) simp_all

lemma advance_no_due:
  assumes "\<forall>t \<in> set (windowTimers st). clock st + d < fst (snd t)"
  shows "advance cd d st = st\<lparr>clock := clock st + d\<rparr>"
proof -
  have a: "filter (\<lambda>t. fst (snd t) \<le> clock st + d) (windowTimers st) = []"
    using assms by (auto simp: filter_empty_conv)
  have b: "filter (\<lambda>t. \<not> fst (snd t) \<le> clock st + d) (windowTimers st) = windowTimers st"
    using assms by (auto simp: filter_id_conv)
  show ?thesis by (simp add: advance_def Let_def a b)
qed

lemma onlySaveTimer_cleared:
  assumes "onlySaveTimer st"
  shows "(case saveTimeoutRef st of None \<Rightarrow> windowTimers st
          | Some h \<Rightarrow> filter (\<lambda>t. fst t \<noteq> h) (windowTimers st)) = []"
proof (cases "saveTimeoutRef st")
  case None
  with assms have "windowTimers st = []"
    by (cases "windowTimers st") (simp_all add: onlySaveTimer_def)
  then show ?thesis using None by simp
next
  case (Some h)
  with assms have "filter (\<lambda>t. fst t \<noteq> h) (windowTimers st) = []"
    by (auto simp: onlySaveTimer_def list_all_iff filter_empty_conv)
  then show ?thesis using Some by simp
qed

lemma mutate_schedules:
  assumes "propNote st = Some note" and "note_id note \<noteq> []" and "editor st \<noteq> None"
    and "\<not> isLoadingRef st"
    and "windowTimers st = [] \<or>
         (\<exists>h due. saveTimeoutRef st = Some h \<and> windowTimers st = [(h, due, c)])"
  shows "debouncing note doc (mutate doc st)"
    and "effects (mutate doc st) = effects st @ [SetNeedsSave True]"
    and "clock (mutate doc st) = clock st"
  using assms
  by (auto simp: debouncing_def mutate_def onUpdate_def scheduleSave_def windowClearTimeout_def
      windowSetTimeout_def logEffect_def Let_def split: option.splits)

lemma debouncing_step:
  assumes "debouncing note doc0 st" and "note_id note \<noteq> []" and "gap < 500"
  shows "debouncing note doc (mutate doc (advance cd gap st))"
    and "saveCalls (effects (mutate doc (advance cd gap st))) = saveCalls (effects st)"
proof -
  from assms(1) obtain h where h: "saveTimeoutRef st = Some h"
    and t: "windowTimers st = [(h, clock st + 500, SaveTimer (note_id note))]"
    by (auto simp: debouncing_def split: option.splits)
  have adv: "advance cd gap st = st\<lparr>clock := clock st + gap\<rparr>"
    by (rule advance_no_due) (simp add: t assms(3))
  let ?s = "st\<lparr>clock := clock st + gap\<rparr>"
  have pre: "propNote ?s = Some note" "editor ?s \<noteq> None" "\<not> isLoadingRef ?s"
    using assms(1) by (simp_all add: debouncing_def)
  have tm: "windowTimers ?s = [] \<or>
      (\<exists>h due. saveTimeoutRef ?s = Some h \<and>
         windowTimers ?s = [(h, due, SaveTimer (note_id note))])"
    using h t by simp
  note m = mutate_schedules [OF pre(1) assms(2) pre(2) pre(3) tm, of doc]
  show "debouncing note doc (mutate doc (advance cd gap st))" unfolding adv by (rule m(1))
  show "saveCalls (effects (mutate doc (advance cd gap st))) = saveCalls (effects st)"
    unfolding adv m(2) by (simp add: saveCalls_append)
qed

lemma idle_step:
  assumes "propNote st = Some note" and "note_id note \<noteq> []" and "editor st \<noteq> None"
    and "\<not> isLoadingRef st" and "windowTimers st = []"
  shows "debouncing note doc (mutate doc (advance cd gap st))"
    and "saveCalls (effects (mutate doc (advance cd gap st))) = saveCalls (effects st)"
proof -
  have adv: "advance cd gap st = st\<lparr>clock := clock st + gap\<rparr>"
    by (rule advance_no_due) (simp add: assms(5))
  let ?s = "st\<lparr>clock := clock st + gap\<rparr>"
  have pre: "propNote ?s = Some note" "editor ?s \<noteq> None" "\<not> isLoadingRef ?s"
    using assms by simp_all
  have tm: "windowTimers ?s = [] \<or>
      (\<exists>h due. saveTimeoutRef ?s = Some h \<and> windowTimers ?s = [(h, due, SaveTimer [])])"
    using assms(5) by simp
  note m = mutate_schedules [OF pre(1) assms(2) pre(2) pre(3) tm, of doc]
  show "debouncing note doc (mutate doc (advance cd gap st))" unfolding adv by (rule m(1))
  show "saveCalls (effects (mutate doc (advance cd gap st))) = saveCalls (effects st)"
    unfolding adv m(2) by (simp add: saveCalls_append)
qed

lemma edits_debouncing:
  assumes "debouncing note doc0 st" and "note_id note \<noteq> []"
    and "\<forall>m \<in> set muts. fst m < 500"
  shows "debouncing note (last (doc0 # map snd muts)) (edits cd muts st) \<and>
         saveCalls (effects (edits cd muts st)) = saveCalls (effects st)"
  using assms
proof (induction muts arbitrary: st doc0)
  case Nil
  then show ?case by simp
next
  case (Cons m muts)
  obtain gap doc where m: "m = (gap, doc)" by (cases m)
  have gap: "gap < 500" using Cons.prems(3) m by simp
  note s = debouncing_step [OF Cons.prems(1) Cons.prems(2) gap, of doc cd]
  have rest: "\<forall>m \<in> set muts. fst m < 500" using Cons.prems(3) by simp
  from Cons.IH [OF s(1) Cons.prems(2) rest]
  show ?case by (simp add: m s(2))
qed

lemma debouncing_fires:
  assumes "debouncing note doc st" and "500 \<le> wait"
  shows "effects (advance cd wait st) =
           effects st @ [SetNeedsSave False, Serialize,
                         CallSaveNote (getMarkdown cd (Some doc)) (Some (note_id note))]"
    and "windowTimers (advance cd wait st) = []"
proof -
  from assms(1) obtain h where h: "saveTimeoutRef st = Some h"
    and t: "windowTimers st = [(h, clock st + 500, SaveTimer (note_id note))]"
    and p: "propNote st = Some note" "editor st = Some doc" "needsSaveRef st"
    by (auto simp: debouncing_def split: option.splits)
  show "effects (advance cd wait st) =
           effects st @ [SetNeedsSave False, Serialize,
                         CallSaveNote (getMarkdown cd (Some doc)) (Some (note_id note))]"
    using assms(2) p
    by (simp add: advance_def Let_def t saveTimerFired_def saveImmediately_def logEffect_def)
  show "windowTimers (advance cd wait st) = []"
    using assms(2) p
    by (simp add: advance_def Let_def t saveTimerFired_def saveImmediately_def logEffect_def)
qed

text \<open>
  C3. The editor shows a note (its id is non-empty: the scheduler tests ids by
  truthiness), is not loading one, and no timer is pending. The user makes one or more
  edits, each less than 500 ms after the one before, then nothing happens for at least
  500 ms. During the edits \<^verbatim>\<open>saveNote\<close> is not called; when the wait is over it has
  been called exactly once, for the shown note, with the serialization of the buffer as
  the last edit left it; and however much more time passes, no further call follows.
  (A call of the provider's \<^verbatim>\<open>saveNote\<close> with a non-empty id issues one write:
  \<open>saveNote_with_id_issues_write\<close>.)
\<close>

theorem debounced_edits_issue_exactly_one_save:
  assumes "propNote st = Some note" and "note_id note \<noteq> []" and "editor st \<noteq> None"
    and "\<not> isLoadingRef st" and "windowTimers st = []"
    and "muts \<noteq> []" and "\<forall>m \<in> set (tl muts). fst m < 500" and "500 \<le> wait"
  shows "saveCalls (effects (edits cd muts st)) = saveCalls (effects st)
       \<and> saveCalls (effects (advance cd wait (edits cd muts st))) =
           saveCalls (effects st) @
             [(Some (note_id note), getMarkdown cd (Some (snd (last muts))))]
       \<and> (\<forall>later. saveCalls (effects (advance cd later (advance cd wait (edits cd muts st)))) =
           saveCalls (effects st) @
             [(Some (note_id note), getMarkdown cd (Some (snd (last muts))))])"
proof -
  obtain gap doc rest where muts: "muts = (gap, doc) # rest"
    using assms(6) by (cases muts) auto
  let ?s1 = "mutate doc (advance cd gap st)"
  note i = idle_step [OF assms(1-5), of doc cd gap]
  have rest: "\<forall>m \<in> set rest. fst m < 500" using assms(7) muts by simp
  from edits_debouncing [OF i(1) assms(2) rest, of cd]
  have d2: "debouncing note (last (doc # map snd rest)) (edits cd rest ?s1)"
    and c2: "saveCalls (effects (edits cd rest ?s1)) = saveCalls (effects ?s1)"
    by simp_all
  have lastdoc: "last (doc # map snd rest) = snd (last muts)"
    unfolding muts by (simp add: last_map)
  have e: "edits cd muts st = edits cd rest ?s1" by (simp add: muts)
  note f = debouncing_fires [OF d2 assms(8), of cd, folded e, unfolded lastdoc]
  have quiet: "saveCalls (effects (edits cd muts st)) = saveCalls (effects st)"
    by (simp add: e c2 i(2))
  have one: "saveCalls (effects (advance cd wait (edits cd muts st))) =
      saveCalls (effects st) @ [(Some (note_id note), getMarkdown cd (Some (snd (last muts))))]"
    unfolding f(1) by (simp add: saveCalls_append quiet)
  have later: "advance cd later (advance cd wait (edits cd muts st)) =
      (advance cd wait (edits cd muts st))
        \<lparr>clock := clock (advance cd wait (edits cd muts st)) + later\<rparr>" for later
    by (rule advance_no_due) (simp add: f(2))
  show ?thesis
  proof (intro conjI allI)
    show "saveCalls (effects (edits cd muts st)) = saveCalls (effects st)" by (rule quiet)
    show "saveCalls (effects (advance cd wait (edits cd muts st))) =
      saveCalls (effects st) @ [(Some (note_id note), getMarkdown cd (Some (snd (last muts))))]"
      by (rule one)
    show "saveCalls (effects (advance cd later (advance cd wait (edits cd muts st)))) =
      saveCalls (effects st) @ [(Some (note_id note), getMarkdown cd (Some (snd (last muts))))]"
      for later
      unfolding later using one by simp
  qed
qed

theorem debounced_edits_issue_exactly_one_save_witness:
  "saveCalls (effects (edits textCodec [(900, ''H''), (120, ''He''), (499, ''Hel'')] loadedEditor))
     = []
   \<and> saveCalls (effects (advance textCodec 500
        (edits textCodec [(900, ''H''), (120, ''He''), (499, ''Hel'')] loadedEditor)))
     = [(Some ''title-one'', ''Hel'')]"
proof -
  let ?muts = "[(900, ''H''), (120, ''He''), (499, ''Hel'')] :: (nat \<times> string) list"
  have h1: "propNote loadedEditor = Some (exampleNote ''title-one'' ''Title one'')"
    by (simp add: loadedEditor_eval)
  have h2: "note_id (exampleNote ''title-one'' ''Title one'') \<noteq> []"
    by (simp add: exampleNote_def)
  have h3: "editor loadedEditor \<noteq> None" by (simp add: loadedEditor_eval)
  have h4: "\<not> isLoadingRef loadedEditor" by (simp add: loadedEditor_eval)
  have h5: "windowTimers loadedEditor = []" by (simp add: loadedEditor_eval)
  have h6: "?muts \<noteq> []" by simp
  have h7: "\<forall>m \<in> set (tl ?muts). fst m < 500" by simp
  have h8: "(500 :: nat) \<le> 500" by simp
  have e: "saveCalls (effects loadedEditor) = []" by (simp add: loadedEditor_eval)
  have m: "getMarkdown textCodec (Some (snd (last ?muts))) = ''Hel''"
    by (simp add: textCodec_def)
  have n: "note_id (exampleNote ''title-one'' ''Title one'') = ''title-one''"
    by (simp add: exampleNote_def)
  note w = debounced_edits_issue_exactly_one_save
    [OF h1 h2 h3 h4 h5 h6 h7 h8, of textCodec, unfolded e m n]
  show ?thesis
  proof (intro conjI)
    show "saveCalls (effects (edits textCodec ?muts loadedEditor)) = []"
      using w [THEN conjunct1] .
    show "saveCalls (effects (advance textCodec 500 (edits textCodec ?muts loadedEditor))) =
      [(Some ''title-one'', ''Hel'')]"
      using w [THEN conjunct2, THEN conjunct1] by simp
  qed
qed


subsection \<open>The source-mode timer\<close>

lemma handleSourceChange_schedules:
  assumes "propNote st = Some note"
    and "windowTimers st = [] \<or>
         (\<exists>h due c. sourceTimeoutRef st = Some h \<and> windowTimers st = [(h, due, c)])"
  shows "sourceDebouncing note v (handleSourceChange v st)"
    and "effects (handleSourceChange v st) = effects st"
  using assms
  by (auto simp: sourceDebouncing_def handleSourceChange_def windowClearTimeout_def
      windowSetTimeout_def Let_def split: option.splits)

lemma sourceDebouncing_step:
  assumes "sourceDebouncing note v0 st" and "gap < 300"
  shows "sourceDebouncing note v (handleSourceChange v (advance cd gap st))"
    and "effects (handleSourceChange v (advance cd gap st)) = effects st"
proof -
  from assms(1) obtain h where h: "sourceTimeoutRef st = Some h"
    and t: "windowTimers st = [(h, clock st + 300, SourceTimer (Some note) v0)]"
    and p: "propNote st = Some note"
    by (auto simp: sourceDebouncing_def split: option.splits)
  have adv: "advance cd gap st = st\<lparr>clock := clock st + gap\<rparr>"
    by (rule advance_no_due) (simp add: t assms(2))
  let ?s = "st\<lparr>clock := clock st + gap\<rparr>"
  have pre: "propNote ?s = Some note" using p by simp
  have tm: "windowTimers ?s = [] \<or>
      (\<exists>h due c. sourceTimeoutRef ?s = Some h \<and> windowTimers ?s = [(h, due, c)])"
    using h t by simp
  note m = handleSourceChange_schedules [OF pre tm, of v]
  show "sourceDebouncing note v (handleSourceChange v (advance cd gap st))"
    unfolding adv by (rule m(1))
  show "effects (handleSourceChange v (advance cd gap st)) = effects st"
    unfolding adv m(2) by simp
qed

lemma sourceEdits_debouncing:
  assumes "sourceDebouncing note v0 st" and "\<forall>m \<in> set changes. fst m < 300"
  shows "sourceDebouncing note (last (v0 # map snd changes)) (sourceEdits cd changes st) \<and>
         effects (sourceEdits cd changes st) = effects st"
  using assms
proof (induction changes arbitrary: st v0)
  case Nil
  then show ?case by simp
next
  case (Cons m changes)
  obtain gap v where m: "m = (gap, v)" by (cases m)
  have gap: "gap < 300" using Cons.prems(2) m by simp
  note s = sourceDebouncing_step [OF Cons.prems(1) gap, of v cd]
  have rest: "\<forall>m \<in> set changes. fst m < 300" using Cons.prems(2) by simp
  from Cons.IH [OF s(1) rest]
  show ?case by (simp add: m s(2))
qed

text \<open>
  The same in source mode, where the timer is set by \<^verbatim>\<open>handleSourceChange\<close>: changes
  of the raw text less than 300 ms apart, then at least 300 ms of quiet, call
  \<^verbatim>\<open>saveNote\<close> exactly once, for the shown note, with the last value.
\<close>

lemma debounced_source_edits_issue_exactly_one_save:
  assumes "propNote st = Some note" and "windowTimers st = []"
    and "changes \<noteq> []" and "\<forall>m \<in> set changes. fst m < 300" and "300 \<le> wait"
  shows "effects (sourceEdits cd changes st) = effects st"
    and "effects (advance cd wait (sourceEdits cd changes st)) =
           effects st @ [CallSaveNote (snd (last changes)) (Some (note_id note))]"
    and "windowTimers (advance cd wait (sourceEdits cd changes st)) = []"
proof -
  obtain gap v rest where changes: "changes = (gap, v) # rest"
    using assms(3) by (cases changes) auto
  have adv: "advance cd gap st = st\<lparr>clock := clock st + gap\<rparr>"
    by (rule advance_no_due) (simp add: assms(2))
  let ?s = "st\<lparr>clock := clock st + gap\<rparr>"
  have pre: "propNote ?s = Some note" using assms(1) by simp
  have tm: "windowTimers ?s = [] \<or>
      (\<exists>h due c. sourceTimeoutRef ?s = Some h \<and> windowTimers ?s = [(h, due, c)])"
    using assms(2) by simp
  note first = handleSourceChange_schedules [OF pre tm, of v, folded adv]
  have quiet: "effects (advance cd gap st) = effects st" by (simp add: adv)
  have rest: "\<forall>m \<in> set rest. fst m < 300" using assms(4) changes by simp
  from sourceEdits_debouncing [OF first(1) rest, of cd]
  have d: "sourceDebouncing note (last (v # map snd rest)) (sourceEdits cd changes st)"
    and e: "effects (sourceEdits cd changes st) = effects st"
    by (simp_all add: changes first(2) quiet)
  have lastv: "last (v # map snd rest) = snd (last changes)"
    unfolding changes by (simp add: last_map)
  from d [unfolded lastv] obtain h where
    t: "windowTimers (sourceEdits cd changes st) =
          [(h, clock (sourceEdits cd changes st) + 300,
            SourceTimer (Some note) (snd (last changes)))]"
    by (auto simp: sourceDebouncing_def split: option.splits)
  show "effects (sourceEdits cd changes st) = effects st" by (rule e)
  show "effects (advance cd wait (sourceEdits cd changes st)) =
      effects st @ [CallSaveNote (snd (last changes)) (Some (note_id note))]"
    using assms(5) by (simp add: advance_def Let_def t logEffect_def e)
  show "windowTimers (advance cd wait (sourceEdits cd changes st)) = []"
    using assms(5) by (simp add: advance_def Let_def t logEffect_def)
qed

subsection \<open>Order of the persist step\<close>

lemma flushPendingSave_dirty:
  assumes "needsSaveRef st" and "editor st = Some doc" and "loadedNoteIdRef st = Some loaded"
    and "loaded \<noteq> []"
  shows "effects (flushPendingSave cd st) =
           effects st @ [SetNeedsSave False, Serialize,
                         CallSaveNote (getMarkdown cd (Some doc)) (Some loaded)]"
    and "\<not> needsSaveRef (flushPendingSave cd st)"
    and "lastSaveRef (flushPendingSave cd st) = Some (loaded, getMarkdown cd (Some doc))"
    and "editor (flushPendingSave cd st) = Some doc"
    and "loadedNoteIdRef (flushPendingSave cd st) = Some loaded"
    and "saveTimeoutRef (flushPendingSave cd st) = None"
    and "windowTimers (flushPendingSave cd st) =
           (case saveTimeoutRef st of None \<Rightarrow> windowTimers st
            | Some h \<Rightarrow> filter (\<lambda>t. fst t \<noteq> h) (windowTimers st))"
    and "propNote (flushPendingSave cd st) = propNote st"
    and "isLoadingRef (flushPendingSave cd st) = isLoadingRef st"
  using assms
  by (simp_all add: flushPendingSave_def windowClearTimeout_def saveImmediately_def logEffect_def
      Let_def split: option.splits)



text \<open>
  While a note is being loaded (from the load effect to the next animation frame, with
  the editor blurred) \<^verbatim>\<open>onUpdate\<close> returns at once: the update that \<^verbatim>\<open>setContent\<close>
  emits, and any other change of the buffer in that window, is not scheduled for saving.
\<close>

lemma mutate_while_loading:
  assumes "isLoadingRef st" and "editor st \<noteq> None"
  shows "mutate doc st = st\<lparr>editor := Some doc\<rparr>"
  using assms by (simp add: mutate_def onUpdate_def)









subsection \<open>Rename echo\<close>

lemma loadEffect_rename_echo:
  assumes "propNote st = Some note" and "editor st = Some doc"
    and "loadedNoteIdRef st = Some old" and "note_id note \<noteq> old"
    and "lastSaveRef st = Some (old, note_content note)"
  shows "loadEffect rt cd st =
           (let adopted = st\<lparr>loadedNoteIdRef := Some (note_id note),
                              loadedModifiedRef := Some (note_modified note),
                              lastSaveRef := None\<rparr>
            in if needsSaveRef st then flushPendingSave cd adopted else adopted)"
proof -
  have "isRenameEcho note st" using assms(3,5) by (simp add: isRenameEcho_def)
  then show ?thesis using assms(1-4) by (simp add: loadEffect_def Let_def)
qed

lemma flushPendingSave_buffer:
  "editor (flushPendingSave cd st) = editor st"
  "loadedNoteIdRef (flushPendingSave cd st) = loadedNoteIdRef st"
  by (simp_all add: flushPendingSave_def windowClearTimeout_def saveImmediately_def
      logEffect_def Let_def split: option.splits)

text \<open>
  The rename echo on the rich-text path. The load/reconcile effect runs with a note whose
  id differs from the loaded id \<open>old\<close>, while the recorded fingerprint is \<open>old\<close> with
  exactly the presented note's content. Then the effect is: adopt the presented id and
  timestamp, clear the fingerprint, and flush if dirty. The loaded id becomes the
  presented id and the buffer is not replaced. If the buffer was clean, the fingerprint
  is empty afterwards and nothing is saved. If it was dirty (and the presented id is
  non-empty: the flush tests it by truthiness), \<^verbatim>\<open>saveNote\<close> is called exactly once,
  under the presented id, with the serialization of the buffer; the buffer is clean; the
  fingerprint is now that save's; the debounce timer held in \<^verbatim>\<open>saveTimeoutRef\<close> is
  cancelled, so that, when no other timer was pending, no further call follows however
  much time passes.
\<close>

lemma rename_echo_adopts_identity_and_flushes:
  assumes "propNote st = Some note" and "editor st = Some doc"
    and "loadedNoteIdRef st = Some old" and "note_id note \<noteq> old"
    and "lastSaveRef st = Some (old, note_content note)"
  shows "loadEffect rt cd st =
           (let adopted = st\<lparr>loadedNoteIdRef := Some (note_id note),
                              loadedModifiedRef := Some (note_modified note),
                              lastSaveRef := None\<rparr>
            in if needsSaveRef st then flushPendingSave cd adopted else adopted)
    \<and> loadedNoteIdRef (loadEffect rt cd st) = Some (note_id note)
    \<and> editor (loadEffect rt cd st) = Some doc
    \<and> (\<not> needsSaveRef st \<longrightarrow>
          lastSaveRef (loadEffect rt cd st) = None \<and> effects (loadEffect rt cd st) = effects st)
    \<and> (needsSaveRef st \<and> note_id note \<noteq> [] \<longrightarrow>
          saveCalls (effects (loadEffect rt cd st)) =
            saveCalls (effects st) @ [(Some (note_id note), getMarkdown cd (Some doc))]
          \<and> \<not> needsSaveRef (loadEffect rt cd st)
          \<and> lastSaveRef (loadEffect rt cd st) = Some (note_id note, getMarkdown cd (Some doc))
          \<and> saveTimeoutRef (loadEffect rt cd st) = None
          \<and> (onlySaveTimer st \<longrightarrow>
               (\<forall>later. saveCalls (effects (advance cd later (loadEffect rt cd st))) =
                  saveCalls (effects (loadEffect rt cd st)))))"
proof -
  let ?adopted = "st\<lparr>loadedNoteIdRef := Some (note_id note),
                     loadedModifiedRef := Some (note_modified note), lastSaveRef := None\<rparr>"
  note eq = loadEffect_rename_echo [OF assms, of rt cd]
  have eq': "loadEffect rt cd st =
      (if needsSaveRef st then flushPendingSave cd ?adopted else ?adopted)"
    using eq by (simp add: Let_def)
  have loaded: "loadedNoteIdRef (loadEffect rt cd st) = Some (note_id note)"
    unfolding eq' by (simp add: flushPendingSave_buffer)
  have buffer: "editor (loadEffect rt cd st) = Some doc"
    unfolding eq' by (simp add: flushPendingSave_buffer assms(2))
  have clean: "lastSaveRef (loadEffect rt cd st) = None \<and> effects (loadEffect rt cd st) = effects st"
    if "\<not> needsSaveRef st"
    unfolding eq' using that by simp
  have dirty: "saveCalls (effects (loadEffect rt cd st)) =
            saveCalls (effects st) @ [(Some (note_id note), getMarkdown cd (Some doc))]
          \<and> \<not> needsSaveRef (loadEffect rt cd st)
          \<and> lastSaveRef (loadEffect rt cd st) = Some (note_id note, getMarkdown cd (Some doc))
          \<and> saveTimeoutRef (loadEffect rt cd st) = None
          \<and> (onlySaveTimer st \<longrightarrow>
               (\<forall>later. saveCalls (effects (advance cd later (loadEffect rt cd st))) =
                  saveCalls (effects (loadEffect rt cd st))))"
    if d: "needsSaveRef st \<and> note_id note \<noteq> []"
  proof -
    have pre: "needsSaveRef ?adopted" "editor ?adopted = Some doc"
      "loadedNoteIdRef ?adopted = Some (note_id note)" "note_id note \<noteq> []"
      using d assms(2) by simp_all
    note fl = flushPendingSave_dirty [OF pre, of cd]
    have e: "loadEffect rt cd st = flushPendingSave cd ?adopted" using eq' d by simp
    have quiet: "saveCalls (effects (advance cd later (loadEffect rt cd st))) =
        saveCalls (effects (loadEffect rt cd st))" if o: "onlySaveTimer st" for later
    proof -
      have nt: "windowTimers (flushPendingSave cd ?adopted) = []"
        unfolding fl(7) using onlySaveTimer_cleared [OF o] by (simp split: option.splits)
      have "advance cd later (flushPendingSave cd ?adopted) =
          (flushPendingSave cd ?adopted)
            \<lparr>clock := clock (flushPendingSave cd ?adopted) + later\<rparr>"
        by (rule advance_no_due) (simp add: nt)
      then show ?thesis unfolding e by simp
    qed
    show ?thesis
    proof (intro conjI impI allI)
      show "saveCalls (effects (loadEffect rt cd st)) =
            saveCalls (effects st) @ [(Some (note_id note), getMarkdown cd (Some doc))]"
        unfolding e fl(1) by (simp add: saveCalls_append)
      show "\<not> needsSaveRef (loadEffect rt cd st)" unfolding e by (rule fl(2))
      show "lastSaveRef (loadEffect rt cd st) = Some (note_id note, getMarkdown cd (Some doc))"
        unfolding e by (rule fl(3))
      show "saveTimeoutRef (loadEffect rt cd st) = None" unfolding e by (rule fl(6))
      show "saveCalls (effects (advance cd later (loadEffect rt cd st))) =
          saveCalls (effects (loadEffect rt cd st))" if "onlySaveTimer st" for later
        using that by (rule quiet)
    qed
  qed
  show ?thesis
  proof (intro conjI)
    show "loadEffect rt cd st =
           (let adopted = ?adopted
            in if needsSaveRef st then flushPendingSave cd adopted else adopted)"
      by (rule eq)
    show "loadedNoteIdRef (loadEffect rt cd st) = Some (note_id note)" by (rule loaded)
    show "editor (loadEffect rt cd st) = Some doc" by (rule buffer)
    show "\<not> needsSaveRef st \<longrightarrow>
          lastSaveRef (loadEffect rt cd st) = None \<and> effects (loadEffect rt cd st) = effects st"
      using clean by blast
    show "needsSaveRef st \<and> note_id note \<noteq> [] \<longrightarrow>
          saveCalls (effects (loadEffect rt cd st)) =
            saveCalls (effects st) @ [(Some (note_id note), getMarkdown cd (Some doc))]
          \<and> \<not> needsSaveRef (loadEffect rt cd st)
          \<and> lastSaveRef (loadEffect rt cd st) = Some (note_id note, getMarkdown cd (Some doc))
          \<and> saveTimeoutRef (loadEffect rt cd st) = None
          \<and> (onlySaveTimer st \<longrightarrow>
               (\<forall>later. saveCalls (effects (advance cd later (loadEffect rt cd st))) =
                  saveCalls (effects (loadEffect rt cd st))))"
      using dirty by blast
  qed
qed

lemma rename_echo_adopts_identity_and_flushes_example:
  "loadedNoteIdRef
     (loadEffect asciiRuntime textCodec
        (typingDuringSave\<lparr>propNote := Some (exampleNote ''title-two'' ''Title two'')\<rparr>)) =
     Some ''title-two''
   \<and> editor
     (loadEffect asciiRuntime textCodec
        (typingDuringSave\<lparr>propNote := Some (exampleNote ''title-two'' ''Title two'')\<rparr>)) =
     Some ''Title two!''
   \<and> saveCalls (effects
     (loadEffect asciiRuntime textCodec
        (typingDuringSave\<lparr>propNote := Some (exampleNote ''title-two'' ''Title two'')\<rparr>))) =
     [(Some ''title-one'', ''Title two''), (Some ''title-two'', ''Title two!'')]
   \<and> saveCalls (effects (advance textCodec 1000
     (loadEffect asciiRuntime textCodec
        (typingDuringSave\<lparr>propNote := Some (exampleNote ''title-two'' ''Title two'')\<rparr>)))) =
     [(Some ''title-one'', ''Title two''), (Some ''title-two'', ''Title two!'')]"
proof -
  let ?note = "exampleNote ''title-two'' ''Title two''"
  let ?st = "typingDuringSave\<lparr>propNote := Some ?note\<rparr>"
  have h1: "propNote ?st = Some ?note" by simp
  have h2: "editor ?st = Some ''Title two!''" by (simp add: typingDuringSave_eval)
  have h3: "loadedNoteIdRef ?st = Some ''title-one''" by (simp add: typingDuringSave_eval)
  have h4: "note_id ?note \<noteq> ''title-one''" by (simp add: exampleNote_def)
  have h5: "lastSaveRef ?st = Some (''title-one'', note_content ?note)"
    by (simp add: typingDuringSave_eval exampleNote_def)
  have n: "note_id ?note = ''title-two''" by (simp add: exampleNote_def)
  have dirty: "needsSaveRef ?st \<and> ''title-two'' \<noteq> []" by (simp add: typingDuringSave_eval)
  have only: "onlySaveTimer ?st" by (simp add: typingDuringSave_eval onlySaveTimer_def)
  have m: "getMarkdown textCodec (Some ''Title two!'') = ''Title two!''"
    by (simp add: textCodec_def)
  have c: "saveCalls (effects ?st) = [(Some ''title-one'', ''Title two'')]"
    by (simp add: typingDuringSave_eval)
  note w = rename_echo_adopts_identity_and_flushes
    [OF h1 h2 h3 h4 h5, of asciiRuntime textCodec, unfolded n m c]
  note d = w [THEN conjunct2, THEN conjunct2, THEN conjunct2, THEN conjunct2, THEN mp, OF dirty]
  show ?thesis
  proof (intro conjI)
    show "loadedNoteIdRef (loadEffect asciiRuntime textCodec ?st) = Some ''title-two''"
      by (rule w [THEN conjunct2, THEN conjunct1])
    show "editor (loadEffect asciiRuntime textCodec ?st) = Some ''Title two!''"
      by (rule w [THEN conjunct2, THEN conjunct2, THEN conjunct1])
    show calls: "saveCalls (effects (loadEffect asciiRuntime textCodec ?st)) =
      [(Some ''title-one'', ''Title two''), (Some ''title-two'', ''Title two!'')]"
      using d [THEN conjunct1] by simp
    show "saveCalls (effects (advance textCodec 1000 (loadEffect asciiRuntime textCodec ?st))) =
      [(Some ''title-one'', ''Title two''), (Some ''title-two'', ''Title two!'')]"
      using d [THEN conjunct2, THEN conjunct2, THEN conjunct2, THEN conjunct2, THEN mp,
          OF only, THEN spec, of 1000] calls
      by simp
  qed
qed

lemma typingInSourceMode_eval:
  "typingInSourceMode =
     \<lparr>propNote = Some (exampleNote ''title-one'' ''Title one''), propReloadVersion = 0,
      editor = Some ''Title one'', isSaving = True, sourceMode = True,
      sourceContent = ''Title two!'', saveTimeoutRef = None, sourceTimeoutRef = Some 2,
      isLoadingRef = False, needsSaveRef = False, loadedNoteIdRef = Some ''title-one'',
      loadedModifiedRef = Some 0, lastSaveRef = Some (''title-one'', ''Title two''),
      lastReloadVersionRef = 0, clock = 300,
      windowTimers =
        [(2, 600, SourceTimer (Some (exampleNote ''title-one'' ''Title one'')) ''Title two!'')],
      nextHandle = 3, frames = [],
      effects = [CallSaveNote ''Title two'' (Some ''title-one'')]\<rparr>"
  by (simp add: typingInSourceMode_def loadedEditor_eval toggleSourceMode_def
      handleSourceChange_def windowClearTimeout_def windowSetTimeout_def logEffect_def
      advance_def textCodec_def exampleNote_def Let_def)

text \<open>
  C2 fails in source mode. The effect does what the claim says of it: on the rename echo
  it adopts the new id \<open>title-two\<close>, leaves the buffer and clears the fingerprint. But
  source-mode typing does not set the dirty flag, so nothing is flushed, and the branch
  returns before the lines that cancel the source timer. The pending source-mode save,
  whose callback holds the note as it was before the rename, then runs: the text typed
  during the rename is saved under the old id \<open>title-one\<close>, and no save is issued under
  the new id.
\<close>

theorem rename_echo_in_source_mode_saves_under_old_id:
  "loadedNoteIdRef typingInSourceMode = Some ''title-one''
   \<and> lastSaveRef typingInSourceMode = Some (''title-one'', ''Title two'')
   \<and> sourceContent typingInSourceMode = ''Title two!''
   \<and> loadedNoteIdRef renamedInSourceMode = Some ''title-two''
   \<and> lastSaveRef renamedInSourceMode = None
   \<and> editor renamedInSourceMode = editor typingInSourceMode
   \<and> saveCalls (effects renamedInSourceMode) = [(Some ''title-one'', ''Title two'')]
   \<and> saveCalls (effects (advance textCodec 300 renamedInSourceMode)) =
       [(Some ''title-one'', ''Title two''), (Some ''title-one'', ''Title two!'')]
   \<and> windowTimers (advance textCodec 300 renamedInSourceMode) = []"
  by (simp add: renamedInSourceMode_def typingInSourceMode_eval render_def loadEffect_def
      isRenameEcho_def advance_def logEffect_def exampleNote_def Let_def)

subsection \<open>The only pending timer is the debounce timer\<close>

text \<open>
  In rich-text mode (no source-mode edit) every step of the editor keeps
  \<open>onlySaveTimer\<close>: it holds at mount and after an edit, the passing of time, a flush,
  a render, an animation frame, the end of a save and the unmount cleanup.
\<close>

lemma onlySaveTimer_initial: "onlySaveTimer initialEditor"
  by (simp add: onlySaveTimer_def initialEditor_def)

lemma onlySaveTimer_scheduleSave:
  assumes "onlySaveTimer st"
  shows "onlySaveTimer (scheduleSave st)"
proof (cases "saveTimeoutRef st")
  case None
  with assms have "windowTimers st = []"
    by (cases "windowTimers st") (simp_all add: onlySaveTimer_def)
  then show ?thesis using None
    by (simp add: scheduleSave_def onlySaveTimer_def windowSetTimeout_def logEffect_def Let_def)
next
  case (Some h)
  with assms have "filter (\<lambda>t. fst t \<noteq> h) (windowTimers st) = []"
    by (auto simp: onlySaveTimer_def list_all_iff filter_empty_conv)
  then show ?thesis using Some
    by (simp add: scheduleSave_def onlySaveTimer_def windowSetTimeout_def
        windowClearTimeout_def logEffect_def Let_def)
qed

lemma onlySaveTimer_mutate: "onlySaveTimer st \<Longrightarrow> onlySaveTimer (mutate doc st)"
proof -
  assume a: "onlySaveTimer st"
  have b: "onlySaveTimer (st\<lparr>editor := Some doc\<rparr>)" using a by (simp add: onlySaveTimer_def)
  show ?thesis
    using a b onlySaveTimer_scheduleSave [OF b] by (simp add: mutate_def onUpdate_def)
qed

lemma runClosure_timers:
  "windowTimers (runClosure cd c st) = windowTimers st"
  "saveTimeoutRef (runClosure cd c st) = saveTimeoutRef st"
proof -
  have "windowTimers (runClosure cd c st) = windowTimers st \<and>
        saveTimeoutRef (runClosure cd c st) = saveTimeoutRef st"
  proof (cases c)
    case (SaveTimer i)
    then show ?thesis
      by (simp add: saveTimerFired_def saveImmediately_def logEffect_def Let_def)
  next
    case (SourceTimer n v)
    then show ?thesis by (cases n) (simp_all add: logEffect_def)
  qed
  then show "windowTimers (runClosure cd c st) = windowTimers st"
    and "saveTimeoutRef (runClosure cd c st) = saveTimeoutRef st"
    by simp_all
qed

lemma fold_runClosure_timers:
  "windowTimers (fold (\<lambda>t. runClosure cd (snd (snd t))) due st) = windowTimers st \<and>
   saveTimeoutRef (fold (\<lambda>t. runClosure cd (snd (snd t))) due st) = saveTimeoutRef st"
  by (induction due arbitrary: st) (simp_all add: runClosure_timers)

lemma onlySaveTimer_advance:
  assumes "onlySaveTimer st"
  shows "onlySaveTimer (advance cd d st)"
  using assms
  by (auto simp: onlySaveTimer_def advance_def Let_def fold_runClosure_timers list_all_iff)

lemma onlySaveTimer_flushPendingSave:
  assumes "onlySaveTimer st"
  shows "onlySaveTimer (flushPendingSave cd st)"
proof -
  have "windowTimers (flushPendingSave cd st) = []"
    using onlySaveTimer_cleared [OF assms]
    by (simp add: flushPendingSave_def windowClearTimeout_def saveImmediately_def logEffect_def
        Let_def split: option.splits)
  then show ?thesis by (simp add: onlySaveTimer_def)
qed

lemma onlySaveTimer_frameFired: "onlySaveTimer st \<Longrightarrow> onlySaveTimer (frameFired i st)"
  by (simp add: onlySaveTimer_def frameFired_def)

lemma onlySaveTimer_animationFrame:
  "onlySaveTimer st \<Longrightarrow> onlySaveTimer (animationFrame st)"
proof -
  have "onlySaveTimer s \<Longrightarrow> onlySaveTimer (fold (\<lambda>f. frameFired (fst f)) fs s)" for fs s
    by (induction fs arbitrary: s) (simp_all add: onlySaveTimer_frameFired)
  moreover assume "onlySaveTimer st"
  then have "onlySaveTimer (st\<lparr>frames := []\<rparr>)" by (simp add: onlySaveTimer_def)
  ultimately show ?thesis unfolding animationFrame_def by blast
qed

lemma onlySaveTimer_unmount:
  assumes "onlySaveTimer st"
  shows "onlySaveTimer (unmount cd st)"
proof -
  have "windowTimers (unmount cd st) = []"
    using onlySaveTimer_cleared [OF assms]
    by (simp add: unmount_def windowClearTimeout_def logEffect_def Let_def
        split: option.splits)
  then show ?thesis by (simp add: onlySaveTimer_def)
qed

lemma onlySaveTimer_saveImmediately_resume:
  "onlySaveTimer st \<Longrightarrow> onlySaveTimer (saveImmediately_resume st)"
  by (simp add: onlySaveTimer_def saveImmediately_resume_def)

lemma setContent_loading:
  "isLoadingRef st \<Longrightarrow>
     windowTimers (setContent cd c st) = windowTimers st \<and>
     saveTimeoutRef (setContent cd c st) = saveTimeoutRef st"
  by (simp add: setContent_def onUpdate_def Let_def)

lemma onlySaveTimer_clearSource:
  assumes "onlySaveTimer st"
  shows "onlySaveTimer
    (case sourceTimeoutRef st of
       None \<Rightarrow> st\<lparr>sourceMode := False\<rparr>
     | Some h \<Rightarrow> (windowClearTimeout h (st\<lparr>sourceMode := False\<rparr>))\<lparr>sourceTimeoutRef := None\<rparr>)"
  using assms
  by (auto simp: onlySaveTimer_def windowClearTimeout_def list_all_iff split: option.splits)

lemma onlySaveTimer_reload:
  assumes "onlySaveTimer st"
  shows "onlySaveTimer
    ((setContent cd c
        (st\<lparr>lastReloadVersionRef := v, loadedModifiedRef := m, isLoadingRef := True\<rparr>))
      \<lparr>isLoadingRef := False\<rparr>)"
proof -
  let ?st3 = "st\<lparr>lastReloadVersionRef := v, loadedModifiedRef := m, isLoadingRef := True\<rparr>"
  have l: "isLoadingRef ?st3" by simp
  show ?thesis
    using assms setContent_loading [OF l, of cd c] by (simp add: onlySaveTimer_def)
qed

lemma onlySaveTimer_switch:
  assumes "onlySaveTimer st"
  shows "onlySaveTimer
    ((setContent cd c
        (st\<lparr>loadedNoteIdRef := i, loadedModifiedRef := m, isLoadingRef := True\<rparr>))
      \<lparr>frames := fs\<rparr>)"
proof -
  let ?st3 = "st\<lparr>loadedNoteIdRef := i, loadedModifiedRef := m, isLoadingRef := True\<rparr>"
  have l: "isLoadingRef ?st3" by simp
  show ?thesis
    using assms setContent_loading [OF l, of cd c] by (simp add: onlySaveTimer_def)
qed

lemma onlySaveTimer_loadEffect:
  assumes "onlySaveTimer st"
  shows "onlySaveTimer (loadEffect rt cd st)"
proof (cases "propNote st")
  case None
  then show ?thesis using assms by (simp add: loadEffect_def)
next
  case (Some n)
  show ?thesis
  proof (cases "editor st")
    case None
    then show ?thesis using assms Some by (simp add: loadEffect_def)
  next
    case ed: (Some doc)
    show ?thesis
    proof (cases "Some (note_id n) = loadedNoteIdRef st")
      case True
      have m: "onlySaveTimer (st\<lparr>loadedModifiedRef := Some (note_modified n)\<rparr>)"
        using assms by (simp add: onlySaveTimer_def)
      have "loadEffect rt cd st =
          (if propReloadVersion st \<noteq> lastReloadVersionRef st
           then (setContent cd (note_content n)
                   (st\<lparr>lastReloadVersionRef := propReloadVersion st,
                        loadedModifiedRef := Some (note_modified n), isLoadingRef := True\<rparr>))
                  \<lparr>isLoadingRef := False\<rparr>
           else st\<lparr>loadedModifiedRef := Some (note_modified n)\<rparr>)"
        using Some ed True by (simp add: loadEffect_def Let_def)
      then show ?thesis
        using m onlySaveTimer_reload [OF assms] by simp
    next
      case different: False
      show ?thesis
      proof (cases "isRenameEcho n st")
        case True
        let ?adopted = "st\<lparr>loadedNoteIdRef := Some (note_id n),
            loadedModifiedRef := Some (note_modified n), lastSaveRef := None\<rparr>"
        have a: "onlySaveTimer ?adopted" using assms by (simp add: onlySaveTimer_def)
        have "loadEffect rt cd st =
            (if needsSaveRef st then flushPendingSave cd ?adopted else ?adopted)"
          using Some ed different True by (simp add: loadEffect_def Let_def)
        then show ?thesis using a onlySaveTimer_flushPendingSave [OF a, of cd] by simp
      next
        case notEcho: False
        have switch: "onlySaveTimer (loadEffect rt cd st)"
          if b: "onlySaveTimer base"
            and e: "onlySaveTimer (loadEffect rt cd st) =
              onlySaveTimer
                (setContent cd (note_content n)
                   ((case sourceTimeoutRef base of
                       None \<Rightarrow> base\<lparr>sourceMode := False\<rparr>
                     | Some h \<Rightarrow> (windowClearTimeout h (base\<lparr>sourceMode := False\<rparr>))
                                   \<lparr>sourceTimeoutRef := None\<rparr>)
                    \<lparr>loadedNoteIdRef := Some (note_id n),
                      loadedModifiedRef := Some (note_modified n), isLoadingRef := True\<rparr>))"
          for base
          unfolding e
          using onlySaveTimer_switch [OF onlySaveTimer_clearSource [OF b],
              where cd = cd and c = "note_content n" and i = "Some (note_id n)"
                and m = "Some (note_modified n)" and fs = "[]"]
          by (simp add: onlySaveTimer_def)
        show ?thesis
        proof (cases "needsSaveRef st")
          case True
          show ?thesis
          proof (rule switch [of "flushPendingSave cd st"])
            show "onlySaveTimer (flushPendingSave cd st)"
              by (rule onlySaveTimer_flushPendingSave [OF assms])
            show "onlySaveTimer (loadEffect rt cd st) =
              onlySaveTimer
                (setContent cd (note_content n)
                   ((case sourceTimeoutRef (flushPendingSave cd st) of
                       None \<Rightarrow> (flushPendingSave cd st)\<lparr>sourceMode := False\<rparr>
                     | Some h \<Rightarrow>
                         (windowClearTimeout h ((flushPendingSave cd st)\<lparr>sourceMode := False\<rparr>))
                           \<lparr>sourceTimeoutRef := None\<rparr>)
                    \<lparr>loadedNoteIdRef := Some (note_id n),
                      loadedModifiedRef := Some (note_modified n), isLoadingRef := True\<rparr>))"
              using Some ed different notEcho True
              by (simp add: loadEffect_def Let_def onlySaveTimer_def)
          qed
        next
          case False
          show ?thesis
          proof (rule switch [of st])
            show "onlySaveTimer st" by (rule assms)
            show "onlySaveTimer (loadEffect rt cd st) =
              onlySaveTimer
                (setContent cd (note_content n)
                   ((case sourceTimeoutRef st of
                       None \<Rightarrow> st\<lparr>sourceMode := False\<rparr>
                     | Some h \<Rightarrow> (windowClearTimeout h (st\<lparr>sourceMode := False\<rparr>))
                                   \<lparr>sourceTimeoutRef := None\<rparr>)
                    \<lparr>loadedNoteIdRef := Some (note_id n),
                      loadedModifiedRef := Some (note_modified n), isLoadingRef := True\<rparr>))"
              using Some ed different notEcho False
              by (simp add: loadEffect_def Let_def onlySaveTimer_def)
          qed
        qed
      qed
    qed
  qed
qed

lemma onlySaveTimer_render:
  "onlySaveTimer st \<Longrightarrow> onlySaveTimer (render rt cd n v st)"
proof -
  assume "onlySaveTimer st"
  then have "onlySaveTimer (st\<lparr>propNote := n, propReloadVersion := v\<rparr>)"
    by (simp add: onlySaveTimer_def)
  then show ?thesis unfolding render_def by (rule onlySaveTimer_loadEffect)
qed

section \<open>External changes of the shown note\<close>

lemma render_same_props_keeps_buffer:
  assumes "loadedNoteIdRef est = map_option note_id note"
    and "lastReloadVersionRef est = version"
  shows "editor (render rt cd note version est) = editor est"
    and "effects (render rt cd note version est) = effects est"
proof -
  have "editor (render rt cd note version est) = editor est \<and>
        effects (render rt cd note version est) = effects est"
  proof (cases "note")
    case None
    then show ?thesis by (simp add: render_def loadEffect_def)
  next
    case (Some n)
    then show ?thesis
      using assms by (simp add: render_def loadEffect_def Let_def)
  qed
  then show "editor (render rt cd note version est) = editor est"
    and "effects (render rt cd note version est) = effects est"
    by simp_all
qed

text \<open>
  C5. A file-change event reaches the live listener; it carries the id of the selected
  note (a non-empty id: the listener tests the selection by truthiness) and that id is
  not in the recently-saved set. Then the handler calls \<^verbatim>\<open>refreshNotes\<close> (which lists
  the notes when a notes folder is set) and sets \<^verbatim>\<open>hasExternalChanges\<close>; the current
  note, the selection and the reload version are what they were, so nothing is reloaded:
  an editor that has this note loaded and is rendered with the provider's new state
  keeps its buffer and saves nothing.
\<close>

theorem external_change_of_selected_note_sets_flag:
  assumes "selectedNoteId st = Some cur" and "cur \<noteq> []"
    and "cur \<in> set changedIds" and "cur \<notin> recentlySavedRef st"
  shows "onFileChange False (Some changedIds) st =
           (refreshNotes st)\<lparr>hasExternalChanges := True\<rparr>
    \<and> hasExternalChanges (onFileChange False (Some changedIds) st)
    \<and> (truthy (notesFolder st) \<longrightarrow>
         invoked (onFileChange False (Some changedIds) st) = invoked st @ [ListNotes])
    \<and> currentNote (onFileChange False (Some changedIds) st) = currentNote st
    \<and> selectedNoteId (onFileChange False (Some changedIds) st) = selectedNoteId st
    \<and> reloadVersion (onFileChange False (Some changedIds) st) = reloadVersion st
    \<and> (\<forall>cd est.
          loadedNoteIdRef est = map_option note_id (currentNote st) \<and>
          lastReloadVersionRef est = reloadVersion st \<longrightarrow>
          editor (render rt cd (currentNote (onFileChange False (Some changedIds) st))
                    (reloadVersion (onFileChange False (Some changedIds) st)) est) = editor est
          \<and> effects (render rt cd (currentNote (onFileChange False (Some changedIds) st))
                    (reloadVersion (onFileChange False (Some changedIds) st)) est) = effects est)"
proof -
  from assms(3,4) have ne: "filter (\<lambda>i. i \<notin> recentlySavedRef st) changedIds \<noteq> []"
    by (auto simp: filter_empty_conv)
  have eq: "onFileChange False (Some changedIds) st =
      (refreshNotes st)\<lparr>hasExternalChanges := True\<rparr>"
    using assms ne by (simp add: onFileChange_def Let_def refreshNotes_fields)
  have cur: "currentNote (onFileChange False (Some changedIds) st) = currentNote st"
    and ver: "reloadVersion (onFileChange False (Some changedIds) st) = reloadVersion st"
    unfolding eq by (simp_all add: refreshNotes_fields)
  show ?thesis
  proof (intro conjI allI impI)
    show "onFileChange False (Some changedIds) st =
      (refreshNotes st)\<lparr>hasExternalChanges := True\<rparr>"
      by (rule eq)
    show "hasExternalChanges (onFileChange False (Some changedIds) st)"
      unfolding eq by simp
    show "invoked (onFileChange False (Some changedIds) st) = invoked st @ [ListNotes]"
      if "truthy (notesFolder st)"
      unfolding eq using that by (simp add: refreshNotes_def invoke_def)
    show "currentNote (onFileChange False (Some changedIds) st) = currentNote st"
      by (rule cur)
    show "selectedNoteId (onFileChange False (Some changedIds) st) = selectedNoteId st"
      unfolding eq by (simp add: refreshNotes_fields)
    show "reloadVersion (onFileChange False (Some changedIds) st) = reloadVersion st"
      by (rule ver)
  next
    fix cd :: "'a codec" and est :: "'a editor_state"
    assume a: "loadedNoteIdRef est = map_option note_id (currentNote st) \<and>
          lastReloadVersionRef est = reloadVersion st"
    show "editor (render rt cd (currentNote (onFileChange False (Some changedIds) st))
                    (reloadVersion (onFileChange False (Some changedIds) st)) est) = editor est"
      unfolding cur ver using a by (simp add: render_same_props_keeps_buffer)
    show "effects (render rt cd (currentNote (onFileChange False (Some changedIds) st))
                    (reloadVersion (onFileChange False (Some changedIds) st)) est) = effects est"
      unfolding cur ver using a by (simp add: render_same_props_keeps_buffer)
  qed
qed

theorem external_change_of_selected_note_sets_flag_witness:
  "hasExternalChanges
     (onFileChange False (Some [''title-one''])
        (initialState\<lparr>notesFolder := Some ''/notes'', selectedNoteId := Some ''title-one'',
           currentNote := Some (exampleNote ''title-one'' ''Title one'')\<rparr>)) = True
   \<and> invoked
     (onFileChange False (Some [''title-one''])
        (initialState\<lparr>notesFolder := Some ''/notes'', selectedNoteId := Some ''title-one'',
           currentNote := Some (exampleNote ''title-one'' ''Title one'')\<rparr>)) = [ListNotes]
   \<and> currentNote
     (onFileChange False (Some [''title-one''])
        (initialState\<lparr>notesFolder := Some ''/notes'', selectedNoteId := Some ''title-one'',
           currentNote := Some (exampleNote ''title-one'' ''Title one'')\<rparr>)) =
     Some (exampleNote ''title-one'' ''Title one'')
   \<and> editor
     (render asciiRuntime textCodec
        (currentNote (onFileChange False (Some [''title-one''])
           (initialState\<lparr>notesFolder := Some ''/notes'', selectedNoteId := Some ''title-one'',
              currentNote := Some (exampleNote ''title-one'' ''Title one'')\<rparr>)))
        (reloadVersion (onFileChange False (Some [''title-one''])
           (initialState\<lparr>notesFolder := Some ''/notes'', selectedNoteId := Some ''title-one'',
              currentNote := Some (exampleNote ''title-one'' ''Title one'')\<rparr>)))
        (mutate ''Unsaved'' loadedEditor)) = Some ''Unsaved''"
proof -
  let ?st = "initialState\<lparr>notesFolder := Some ''/notes'', selectedNoteId := Some ''title-one'',
           currentNote := Some (exampleNote ''title-one'' ''Title one'')\<rparr>"
  let ?est = "mutate ''Unsaved'' loadedEditor"
  have h1: "selectedNoteId ?st = Some ''title-one''" by simp
  have h2: "''title-one'' \<noteq> []" by simp
  have h3: "''title-one'' \<in> set [''title-one'']" by simp
  have h4: "''title-one'' \<notin> recentlySavedRef ?st" by (simp add: initialState_def)
  have f: "truthy (notesFolder ?st)" by simp
  have i: "invoked ?st = []" by (simp add: initialState_def)
  have c: "currentNote ?st = Some (exampleNote ''title-one'' ''Title one'')" by simp
  have e: "loadedNoteIdRef ?est = map_option note_id (currentNote ?st) \<and>
      lastReloadVersionRef ?est = reloadVersion ?st"
    by (simp add: loadedEditor_eval mutate_def onUpdate_def scheduleSave_def
        windowClearTimeout_def windowSetTimeout_def logEffect_def exampleNote_def initialState_def
        Let_def)
  have b: "editor ?est = Some ''Unsaved''"
    by (simp add: loadedEditor_eval mutate_def onUpdate_def scheduleSave_def
        windowClearTimeout_def windowSetTimeout_def logEffect_def exampleNote_def Let_def)
  note w = external_change_of_selected_note_sets_flag [OF h1 h2 h3 h4]
  show ?thesis
  proof (intro conjI)
    show "hasExternalChanges (onFileChange False (Some [''title-one'']) ?st) = True"
      using w [THEN conjunct2, THEN conjunct1] by simp
    show "invoked (onFileChange False (Some [''title-one'']) ?st) = [ListNotes]"
      using w [THEN conjunct2, THEN conjunct2, THEN conjunct1, THEN mp, OF f] i by simp
    show "currentNote (onFileChange False (Some [''title-one'']) ?st) =
      Some (exampleNote ''title-one'' ''Title one'')"
      using w [THEN conjunct2, THEN conjunct2, THEN conjunct2, THEN conjunct1] c by simp
    show "editor
      (render asciiRuntime textCodec (currentNote (onFileChange False (Some [''title-one'']) ?st))
        (reloadVersion (onFileChange False (Some [''title-one'']) ?st)) ?est) =
      Some ''Unsaved''"
      using w [THEN conjunct2, THEN conjunct2, THEN conjunct2, THEN conjunct2, THEN conjunct2,
          THEN conjunct2, THEN spec, THEN spec, THEN mp, OF e, THEN conjunct1] b
      by simp
  qed
qed


end
